theory Spec2Isabelle
  imports Complex_Main
begin

section \<open>The velocity test node (execute\_test/main.py)\<close>

text \<open>
  A shallow embedding of \<^verbatim>\<open>VelocityTestNode\<close>: the timed publish loop
  (\<^verbatim>\<open>publish_velocity\<close>), the stop sequence (\<^verbatim>\<open>stop_robot\<close>), the console
  prompts and the interface loop (\<^verbatim>\<open>user_interface\<close>), and the exit handler of
  \<^verbatim>\<open>main\<close>.

  What the node does beyond computing values is made explicit: the messages handed to
  the \<^verbatim>\<open>cmd_vel\<close> publisher are a log, the wall clock is a field that
  \<^verbatim>\<open>time.sleep\<close> advances, the console is a list of pending input events, and a raised
  exception is an outcome of its own.
\<close>

subsection \<open>Python floats\<close>

text \<open>
  The values read by \<^verbatim>\<open>float(input(...))\<close>. A Python float is a finite number, an
  infinity or a NaN. The range of the finite floats is modelled (see \<open>of_literal\<close> below);
  rounding to 53 bits inside that range is not: a finite float in range is the real number
  its literal denotes, and \<^verbatim>\<open>-0.0\<close> is \<open>0\<close>.
\<close>

datatype pyfloat = Finite real | PosInf | NegInf | NaN

text \<open>The comparisons \<^verbatim>\<open>a < b\<close> and \<^verbatim>\<open>a <= b\<close>; every comparison with a NaN is false.\<close>

fun pf_less :: "pyfloat \<Rightarrow> pyfloat \<Rightarrow> bool" where
  "pf_less NaN _ = False"
| "pf_less _ NaN = False"
| "pf_less (Finite a) (Finite b) = (a < b)"
| "pf_less (Finite _) PosInf = True"
| "pf_less (Finite _) NegInf = False"
| "pf_less PosInf _ = False"
| "pf_less NegInf NegInf = False"
| "pf_less NegInf _ = True"

fun pf_le :: "pyfloat \<Rightarrow> pyfloat \<Rightarrow> bool" where
  "pf_le NaN _ = False"
| "pf_le _ NaN = False"
| "pf_le (Finite a) (Finite b) = (a \<le> b)"
| "pf_le (Finite _) PosInf = True"
| "pf_le (Finite _) NegInf = False"
| "pf_le PosInf PosInf = True"
| "pf_le PosInf _ = False"
| "pf_le NegInf _ = True"

subsection \<open>Strings: \<^verbatim>\<open>str.strip\<close>, \<^verbatim>\<open>str.lower\<close> and \<^verbatim>\<open>float(str)\<close>\<close>

text \<open>
  A line is a string over the code points U+0000 to U+00FF, the 256 values of the type
  \<open>char\<close>; a line with a code point beyond them is outside the model. The white space of
  \<^verbatim>\<open>str.strip\<close> and \<^verbatim>\<open>float\<close> among them: U+0009 to U+000D, U+001C to U+001F, the
  blank, U+0085 and U+00A0. \<^verbatim>\<open>str.lower\<close> is modelled on the letters A to Z; the other
  letters cannot become \<^verbatim>\<open>y\<close>, \<^verbatim>\<open>e\<close> or \<^verbatim>\<open>s\<close>.
\<close>

definition is_space :: "char \<Rightarrow> bool" where
  "is_space c = (c \<in> set [CHR '' '', CHR 0x09, CHR 0x0A, CHR 0x0B, CHR 0x0C, CHR 0x0D,
                          CHR 0x1C, CHR 0x1D, CHR 0x1E, CHR 0x1F, CHR 0x85, CHR 0xA0])"

definition strip :: "string \<Rightarrow> string" where
  "strip s = rev (dropWhile is_space (rev (dropWhile is_space s)))"

definition lower_char :: "char \<Rightarrow> char" where
  "lower_char c =
     (case map_of (zip ''ABCDEFGHIJKLMNOPQRSTUVWXYZ'' ''abcdefghijklmnopqrstuvwxyz'') c of
        Some d \<Rightarrow> d
      | None \<Rightarrow> c)"

definition lower :: "string \<Rightarrow> string" where
  "lower s = map lower_char s"

definition digit_of :: "char \<Rightarrow> nat option" where
  "digit_of c =
     map_of [(CHR ''0'', 0), (CHR ''1'', 1), (CHR ''2'', 2), (CHR ''3'', 3), (CHR ''4'', 4),
             (CHR ''5'', 5), (CHR ''6'', 6), (CHR ''7'', 7), (CHR ''8'', 8), (CHR ''9'', 9)] c"

definition is_digit :: "char \<Rightarrow> bool" where
  "is_digit c = (digit_of c \<noteq> None)"

text \<open>
  The grammar of \<^verbatim>\<open>float(str)\<close> (Python language reference, built-in functions):
  \<^verbatim>\<open>
  digitpart   ::= digit (["_"] digit)*
  number      ::= [digitpart] "." digitpart | digitpart ["."]
  exponent    ::= ("e" | "E") [sign] digitpart
  floatnumber ::= number [exponent]
  floatvalue  ::= [sign] (floatnumber | "inf" | "infinity" | "nan")
  \<close>
  after stripping white space, with \<^verbatim>\<open>inf\<close>, \<^verbatim>\<open>infinity\<close> and \<^verbatim>\<open>nan\<close> in any case.
  A string outside the grammar makes \<^verbatim>\<open>float\<close> raise \<^verbatim>\<open>ValueError\<close>: the value \<open>None\<close>.
\<close>

fun digitpart_ok :: "string \<Rightarrow> bool" where
  "digitpart_ok [] = False"
| "digitpart_ok [c] = is_digit c"
| "digitpart_ok (c # d # rest) =
     (is_digit c \<and> (if d = CHR ''_'' then digitpart_ok rest else digitpart_ok (d # rest)))"

definition digits_val :: "string \<Rightarrow> nat" where
  "digits_val s = foldl (\<lambda>a c. 10 * a + the (digit_of c)) 0 (filter is_digit s)"

definition parse_number :: "string \<Rightarrow> real option" where
  "parse_number s =
     (let ip = takeWhile (\<lambda>c. c \<noteq> CHR ''.'') s;
          r = dropWhile (\<lambda>c. c \<noteq> CHR ''.'') s
      in case r of
           [] \<Rightarrow> if digitpart_ok ip then Some (real (digits_val ip)) else None
         | _ # fp \<Rightarrow>
             if fp = [] then (if digitpart_ok ip then Some (real (digits_val ip)) else None)
             else if (ip = [] \<or> digitpart_ok ip) \<and> digitpart_ok fp
             then Some (real (digits_val ip)
                        + real (digits_val fp) / 10 ^ length (filter is_digit fp))
             else None)"

definition parse_exponent :: "string \<Rightarrow> int option" where
  "parse_exponent s =
     (case s of
        [] \<Rightarrow> None
      | c # t \<Rightarrow>
          if c = CHR ''-'' then (if digitpart_ok t then Some (- int (digits_val t)) else None)
          else if c = CHR ''+'' then (if digitpart_ok t then Some (int (digits_val t)) else None)
          else if digitpart_ok s then Some (int (digits_val s)) else None)"

definition parse_floatnumber :: "string \<Rightarrow> real option" where
  "parse_floatnumber s =
     (let m = takeWhile (\<lambda>c. c \<noteq> CHR ''e'' \<and> c \<noteq> CHR ''E'') s;
          r = dropWhile (\<lambda>c. c \<noteq> CHR ''e'' \<and> c \<noteq> CHR ''E'') s
      in case r of
           [] \<Rightarrow> parse_number m
         | _ # ex \<Rightarrow>
             (case (parse_number m, parse_exponent ex) of
                (Some a, Some k) \<Rightarrow>
                  Some (if 0 \<le> k then a * 10 ^ nat k else a / 10 ^ nat (- k))
              | _ \<Rightarrow> None))"

text \<open>
  The value of a literal is rounded to the nearest float, ties to even. A magnitude of at
  least \<open>2^1024 - 2^970\<close>, halfway between the largest float and \<open>2^1024\<close>, becomes an
  infinity (\<^verbatim>\<open>float("1e309")\<close> is \<^verbatim>\<open>inf\<close>); a magnitude of at most \<open>2^-1075\<close>, half
  the smallest positive float, becomes zero (\<^verbatim>\<open>float("1e-324")\<close> is \<^verbatim>\<open>0.0\<close>). So
  whether a literal is zero, positive, negative or infinite is what \<^verbatim>\<open>float\<close> decides.
\<close>

definition of_literal :: "real \<Rightarrow> pyfloat" where
  "of_literal r =
     (if 2 ^ 1024 - 2 ^ 970 \<le> \<bar>r\<bar> then (if r < 0 then NegInf else PosInf)
      else if \<bar>r\<bar> \<le> 1 / 2 ^ 1075 then Finite 0
      else Finite r)"

definition parse_abs :: "string \<Rightarrow> pyfloat option" where
  "parse_abs s =
     (if lower s = ''inf'' \<or> lower s = ''infinity'' then Some PosInf
      else if lower s = ''nan'' then Some NaN
      else map_option of_literal (parse_floatnumber s))"

definition negate :: "pyfloat \<Rightarrow> pyfloat" where
  "negate v = (case v of Finite r \<Rightarrow> Finite (- r) | PosInf \<Rightarrow> NegInf | NegInf \<Rightarrow> PosInf
               | NaN \<Rightarrow> NaN)"

definition py_float :: "string \<Rightarrow> pyfloat option" where
  "py_float s =
     (case strip s of
        [] \<Rightarrow> None
      | c # t \<Rightarrow>
          if c = CHR ''-'' then map_option negate (parse_abs t)
          else if c = CHR ''+'' then parse_abs t
          else parse_abs (c # t))"

subsection \<open>Messages, the node and its environment\<close>

text \<open>
  \<^verbatim>\<open>geometry_msgs.msg.Twist\<close>: two vectors of three floats, \<^verbatim>\<open>linear.x\<close> to
  \<^verbatim>\<open>angular.z\<close>. \<^verbatim>\<open>Twist()\<close> has every field \<^verbatim>\<open>0.0\<close>.
\<close>

record twist =
  linear_x :: pyfloat
  linear_y :: pyfloat
  linear_z :: pyfloat
  angular_x :: pyfloat
  angular_y :: pyfloat
  angular_z :: pyfloat

definition Twist :: twist where
  "Twist = \<lparr>linear_x = Finite 0, linear_y = Finite 0, linear_z = Finite 0,
            angular_x = Finite 0, angular_y = Finite 0, angular_z = Finite 0\<rparr>"

datatype mode = Linear | Angular | Exit

datatype exn = EOFError | ChannelError

text \<open>
  The fields of the node (\<open>twist_msg\<close>, \<open>is_publishing\<close>, \<open>test_mode\<close>) and the world
  around it:
  \<^item> \<open>sent\<close>: the messages accepted by \<^verbatim>\<open>cmd_vel_publisher.publish\<close>, oldest first;
  \<^item> \<open>chan_budget\<close>: how many more messages the publisher accepts before \<^verbatim>\<open>publish\<close>
    raises (\<open>None\<close>: it never raises);
  \<^item> \<open>now\<close>: the reading of \<^verbatim>\<open>time.time()\<close>, which only \<^verbatim>\<open>time.sleep\<close> advances;
  \<^item> \<open>env\<close>: for each coming \<^verbatim>\<open>time.sleep\<close>, how much longer than asked it lasts and
    whether another thread clears \<open>is_publishing\<close> meanwhile (exhausted: exact sleeps, no
    interference);
  \<^item> \<open>reports\<close>: the elapsed times printed by \<^verbatim>\<open>Test completed! Published for ...\<close>;
  \<^item> \<open>rclpy_ok\<close>: the value of \<^verbatim>\<open>rclpy.ok()\<close>, false after \<^verbatim>\<open>rclpy.shutdown()\<close>.
\<close>

record state =
  twist_msg :: twist
  is_publishing :: bool
  test_mode :: "mode option"
  sent :: "twist list"
  chan_budget :: "nat option"
  now :: real
  env :: "(real \<times> bool) list"
  reports :: "real list"
  rclpy_ok :: bool

text \<open>A call either returns, leaving a state, or raises, leaving the state at the raise.\<close>

datatype outcome = Returned state | Raised exn state

fun final :: "outcome \<Rightarrow> state" where
  "final (Returned s) = s"
| "final (Raised e s) = s"

definition publish :: "twist \<Rightarrow> state \<Rightarrow> outcome" where
  "publish msg s =
     (case chan_budget s of
        None \<Rightarrow> Returned (s\<lparr>sent := sent s @ [msg]\<rparr>)
      | Some 0 \<Rightarrow> Raised ChannelError s
      | Some (Suc k) \<Rightarrow> Returned (s\<lparr>sent := sent s @ [msg], chan_budget := Some k\<rparr>))"

definition sleep :: "real \<Rightarrow> state \<Rightarrow> state" where
  "sleep d s =
     (case env s of
        [] \<Rightarrow> s\<lparr>now := now s + d\<rparr>
      | (extra, cancel) # rest \<Rightarrow>
          s\<lparr>now := now s + d + extra,
            is_publishing := (is_publishing s \<and> \<not> cancel),
            env := rest\<rparr>)"

definition shutdown :: "state \<Rightarrow> state" where
  "shutdown s = s\<lparr>rclpy_ok := False\<rparr>"

subsection \<open>\<^verbatim>\<open>stop_robot\<close> and \<^verbatim>\<open>publish_velocity\<close>\<close>

definition stop_msg :: twist where
  "stop_msg = Twist\<lparr>linear_x := Finite 0, linear_y := Finite 0, linear_z := Finite 0,
                    angular_x := Finite 0, angular_y := Finite 0, angular_z := Finite 0\<rparr>"

text \<open>\<^verbatim>\<open>for _ in range(n): publish(stop_msg); time.sleep(0.1)\<close>\<close>

fun stop_loop :: "nat \<Rightarrow> state \<Rightarrow> outcome" where
  "stop_loop 0 s = Returned s"
| "stop_loop (Suc n) s =
     (case publish stop_msg s of
        Raised e s' \<Rightarrow> Raised e s'
      | Returned s' \<Rightarrow> stop_loop n (sleep (1 / 10) s'))"

definition stop_robot :: "state \<Rightarrow> outcome" where
  "stop_robot s = stop_loop 5 s"

definition rate :: real where
  "rate = 10"

definition sleep_time :: real where
  "sleep_time = 1 / rate"

text \<open>
  \<^verbatim>\<open>while (time.time() - start_time) < duration and self.is_publishing:\<close>
  \<^verbatim>\<open>    publish(self.twist_msg); time.sleep(sleep_time)\<close>
  The loop need not end (an infinite duration): not returning is the value \<open>None\<close>.
\<close>

partial_function (option) publish_loop :: "real \<Rightarrow> pyfloat \<Rightarrow> state \<Rightarrow> outcome option" where
  "publish_loop start_time duration s =
     (if pf_less (Finite (now s - start_time)) duration \<and> is_publishing s
      then (case publish (twist_msg s) s of
              Raised e s' \<Rightarrow> Some (Raised e s')
            | Returned s' \<Rightarrow> publish_loop start_time duration (sleep sleep_time s'))
      else Some (Returned s))"

text \<open>
  The method has no \<^verbatim>\<open>return\<close> statement: its result is \<^verbatim>\<open>None\<close>, and all it leaves
  is the state. The elapsed time it prints is read after \<^verbatim>\<open>stop_robot\<close> has returned.
\<close>

definition publish_velocity :: "pyfloat \<Rightarrow> pyfloat \<Rightarrow> pyfloat \<Rightarrow> state \<Rightarrow> outcome option" where
  "publish_velocity linear_vel angular_vel duration s =
     (let s1 = s\<lparr>is_publishing := True,
                 twist_msg := \<lparr>linear_x = linear_vel, linear_y = Finite 0, linear_z = Finite 0,
                               angular_x = Finite 0, angular_y = Finite 0,
                               angular_z = angular_vel\<rparr>\<rparr>;
          start_time = now s1
      in case publish_loop start_time duration s1 of
           None \<Rightarrow> None
         | Some (Raised e s2) \<Rightarrow> Some (Raised e s2)
         | Some (Returned s2) \<Rightarrow>
             (case stop_robot s2 of
                Raised e s3 \<Rightarrow> Some (Raised e s3)
              | Returned s3 \<Rightarrow>
                  Some (Returned (s3\<lparr>reports := reports s3 @ [now s3 - start_time],
                                     is_publishing := False\<rparr>))))"

subsection \<open>The console prompts\<close>

text \<open>
  What \<^verbatim>\<open>input()\<close> meets: a line, or a \<^verbatim>\<open>KeyboardInterrupt\<close> raised inside the call.
  When nothing is pending the input has ended and \<^verbatim>\<open>input()\<close> raises \<^verbatim>\<open>EOFError\<close>,
  which no handler of the node catches. Each prompt function returns its result with the
  input it has not read.
\<close>

datatype console = Line string | Interrupt

fun get_test_mode :: "console list \<Rightarrow> (exn + mode) \<times> console list" where
  "get_test_mode [] = (Inl EOFError, [])"
| "get_test_mode (Interrupt # rest) = (Inr Exit, rest)"
| "get_test_mode (Line l # rest) =
     (let choice = strip l
      in if choice = ''1'' then (Inr Linear, rest)
         else if choice = ''2'' then (Inr Angular, rest)
         else if choice = ''3'' then (Inr Exit, rest)
         else get_test_mode rest)"

text \<open>
  \<^verbatim>\<open>get_linear_test_parameters\<close> and \<^verbatim>\<open>get_angular_test_parameters\<close> have the same
  body up to the text of their prompts. Both reads are in one \<^verbatim>\<open>try\<close> block inside
  \<^verbatim>\<open>while True\<close>: after a \<^verbatim>\<open>ValueError\<close> from either \<^verbatim>\<open>float\<close>, or a duration
  \<^verbatim>\<open><= 0\<close>, the loop starts again at the velocity prompt. \<open>Inr None\<close> is the pair
  \<^verbatim>\<open>(None, None)\<close> returned on \<^verbatim>\<open>KeyboardInterrupt\<close>.
\<close>

fun get_test_parameters :: "console list \<Rightarrow> (exn + (pyfloat \<times> pyfloat) option) \<times> console list" where
  "get_test_parameters [] = (Inl EOFError, [])"
| "get_test_parameters (Interrupt # rest) = (Inr None, rest)"
| "get_test_parameters [Line v] =
     (case py_float v of None \<Rightarrow> get_test_parameters [] | Some velocity \<Rightarrow> (Inl EOFError, []))"
| "get_test_parameters (Line v # Interrupt # rest) =
     (case py_float v of
        None \<Rightarrow> get_test_parameters (Interrupt # rest)
      | Some velocity \<Rightarrow> (Inr None, rest))"
| "get_test_parameters (Line v # Line d # rest) =
     (case py_float v of
        None \<Rightarrow> get_test_parameters (Line d # rest)
      | Some velocity \<Rightarrow>
          (case py_float d of
             None \<Rightarrow> get_test_parameters rest
           | Some duration \<Rightarrow>
               if pf_le duration (Finite 0) then get_test_parameters rest
               else (Inr (Some (velocity, duration)), rest)))"

definition get_linear_test_parameters ::
  "console list \<Rightarrow> (exn + (pyfloat \<times> pyfloat) option) \<times> console list" where
  "get_linear_test_parameters = get_test_parameters"

definition get_angular_test_parameters ::
  "console list \<Rightarrow> (exn + (pyfloat \<times> pyfloat) option) \<times> console list" where
  "get_angular_test_parameters = get_test_parameters"

subsection \<open>\<^verbatim>\<open>user_interface\<close> and the exit of \<^verbatim>\<open>main\<close>\<close>

text \<open>How one pass through the body of \<^verbatim>\<open>while rclpy.ok():\<close> ends.\<close>

datatype flow = Continue | Break | Raise exn

text \<open>
  \<^verbatim>\<open>continue_choice = input("Continue testing? (y/n): ").strip().lower()\<close>, inside the
  \<^verbatim>\<open>try\<close> whose handler turns \<^verbatim>\<open>KeyboardInterrupt\<close> into \<^verbatim>\<open>break\<close>.
\<close>

fun ask_continue :: "console list \<Rightarrow> state \<Rightarrow> flow \<times> state \<times> console list" where
  "ask_continue [] s = (Raise EOFError, s, [])"
| "ask_continue (Interrupt # rest) s = (Break, s, rest)"
| "ask_continue (Line l # rest) s =
     (let continue_choice = lower (strip l)
      in if continue_choice \<notin> set [''y'', ''yes''] then (Break, s, rest)
         else (Continue, s, rest))"

text \<open>
  The body of the loop. The test runs in a thread that is started and joined at once: the
  caller waits for \<^verbatim>\<open>publish_velocity\<close> to end. An exception raised in the thread ends
  the thread only; \<^verbatim>\<open>join\<close> returns and the interface goes on from the state at the
  raise. A test that never ends is never joined.
\<close>

definition iteration :: "mode \<Rightarrow> console list \<Rightarrow> state \<Rightarrow> (flow \<times> state \<times> console list) option" where
  "iteration m inp s =
     (case m of
        Linear \<Rightarrow>
          (case get_linear_test_parameters inp of
             (Inl e, rest) \<Rightarrow> Some (Raise e, s, rest)
           | (Inr None, rest) \<Rightarrow> Some (Break, s, rest)
           | (Inr (Some (velocity, duration)), rest) \<Rightarrow>
               (case publish_velocity velocity (Finite 0) duration s of
                  None \<Rightarrow> None
                | Some r \<Rightarrow> Some (ask_continue rest (final r))))
      | Angular \<Rightarrow>
          (case get_angular_test_parameters inp of
             (Inl e, rest) \<Rightarrow> Some (Raise e, s, rest)
           | (Inr None, rest) \<Rightarrow> Some (Break, s, rest)
           | (Inr (Some (velocity, duration)), rest) \<Rightarrow>
               (case publish_velocity (Finite 0) velocity duration s of
                  None \<Rightarrow> None
                | Some r \<Rightarrow> Some (ask_continue rest (final r))))
      | Exit \<Rightarrow> Some (ask_continue inp s))"

partial_function (option) testing_loop ::
  "mode \<Rightarrow> console list \<Rightarrow> state \<Rightarrow> (outcome \<times> console list) option" where
  "testing_loop m inp s =
     (if rclpy_ok s
      then (case iteration m inp s of
              None \<Rightarrow> None
            | Some (Continue, s', rest) \<Rightarrow> testing_loop m rest s'
            | Some (Break, s', rest) \<Rightarrow> Some (Returned s', rest)
            | Some (Raise e, s', rest) \<Rightarrow> Some (Raised e s', rest))
      else Some (Returned s, inp))"

definition user_interface :: "console list \<Rightarrow> state \<Rightarrow> (outcome \<times> console list) option" where
  "user_interface inp s =
     (case get_test_mode inp of
        (Inl e, rest) \<Rightarrow> Some (Raised e s, rest)
      | (Inr m, rest) \<Rightarrow>
          (let s1 = s\<lparr>test_mode := Some m\<rparr>
           in if m = Exit then Some (Returned (shutdown s1), rest)
              else (case testing_loop m rest s1 of
                      None \<Rightarrow> None
                    | Some (Returned s2, rest') \<Rightarrow> Some (Returned (shutdown s2), rest')
                    | Some (Raised e s2, rest') \<Rightarrow> Some (Raised e s2, rest'))))"

text \<open>
  The \<^verbatim>\<open>finally\<close> clause of \<^verbatim>\<open>main\<close>, entered however the \<^verbatim>\<open>try\<close> block ended:
  \<^verbatim>\<open>if 'node' in locals(): node.stop_robot(); node.destroy_node()\<close>, then
  \<^verbatim>\<open>rclpy.shutdown()\<close>. \<open>node_exists\<close> says whether \<^verbatim>\<open>VelocityTestNode()\<close> returned;
  \<open>pending\<close> is the exception the \<^verbatim>\<open>try\<close> block left uncaught, raised again after the clause
  (\<^verbatim>\<open>KeyboardInterrupt\<close> is caught: nothing pending).
\<close>

definition main_finally :: "bool \<Rightarrow> exn option \<Rightarrow> state \<Rightarrow> outcome" where
  "main_finally node_exists pending s =
     (case (if node_exists then stop_robot s else Returned s) of
        Raised e s' \<Rightarrow> Raised e s'
      | Returned s' \<Rightarrow>
          (case pending of
             None \<Rightarrow> Returned (shutdown s')
           | Some e \<Rightarrow> Raised e (shutdown s')))"

text \<open>
  The node after \<^verbatim>\<open>__init__\<close>, in a world whose publisher never raises and whose clock
  reads \<open>0\<close>.
\<close>

definition init_state :: state where
  "init_state =
     \<lparr>twist_msg = Twist, is_publishing = False, test_mode = None, sent = [],
      chan_budget = None, now = 0, env = [], reports = [], rclpy_ok = True\<rparr>"

subsection \<open>Notions used in the statements\<close>

text \<open>The publisher accepts at least \<open>n\<close> more messages.\<close>

definition accepts :: "nat \<Rightarrow> state \<Rightarrow> bool" where
  "accepts n s = (case chan_budget s of None \<Rightarrow> True | Some b \<Rightarrow> n \<le> b)"

text \<open>The message \<^verbatim>\<open>publish_velocity\<close> builds in \<open>twist_msg\<close> from its two velocities.\<close>

definition command :: "pyfloat \<Rightarrow> pyfloat \<Rightarrow> twist" where
  "command linear_vel angular_vel =
     \<lparr>linear_x = linear_vel, linear_y = Finite 0, linear_z = Finite 0,
      angular_x = Finite 0, angular_y = Finite 0, angular_z = angular_vel\<rparr>"

text \<open>Only \<^verbatim>\<open>linear.x\<close> and \<^verbatim>\<open>angular.z\<close> may differ from \<^verbatim>\<open>0.0\<close>.\<close>

definition planar :: "twist \<Rightarrow> bool" where
  "planar t = (linear_y t = Finite 0 \<and> linear_z t = Finite 0 \<and>
               angular_x t = Finite 0 \<and> angular_y t = Finite 0)"

text \<open>Every message accepted so far is planar.\<close>

definition planar_log :: "state \<Rightarrow> bool" where
  "planar_log s = (\<forall>t \<in> set (sent s). planar t)"




text \<open>How many of \<^verbatim>\<open>linear.x\<close> and \<^verbatim>\<open>angular.z\<close> are non-zero (\<^verbatim>\<open>!= 0.0\<close>).\<close>

definition moving_components :: "twist \<Rightarrow> nat" where
  "moving_components t =
     (if linear_x t \<noteq> Finite 0 then 1 else 0) + (if angular_z t \<noteq> Finite 0 then 1 else 0)"

text \<open>
  The state a test of \<^verbatim>\<open>0.1\<close> seconds leaves when every sleep is exact and the
  publisher never raises: one tick, five stop commands, \<^verbatim>\<open>0.6\<close> seconds on the clock.
\<close>

definition after_session :: "pyfloat \<Rightarrow> pyfloat \<Rightarrow> state \<Rightarrow> state" where
  "after_session lv av s =
     s\<lparr>twist_msg := command lv av,
       sent := sent s @ [command lv av, stop_msg, stop_msg, stop_msg, stop_msg, stop_msg],
       now := now s + 3 / 5,
       reports := reports s @ [3 / 5],
       is_publishing := False\<rparr>"

section \<open>Properties\<close>

subsection \<open>The publisher, the clock and the two loops\<close>

lemma sleep_fields [simp]:
  "sent (sleep d s) = sent s" "twist_msg (sleep d s) = twist_msg s"
  "reports (sleep d s) = reports s" "rclpy_ok (sleep d s) = rclpy_ok s"
  "test_mode (sleep d s) = test_mode s" "chan_budget (sleep d s) = chan_budget s"
  by (simp_all add: sleep_def split: list.splits prod.splits)

lemma sleep_ideal: "env s = [] \<Longrightarrow> sleep d s = s\<lparr>now := now s + d\<rparr>"
  by (simp add: sleep_def)

lemma publish_cases:
  obtains (ok) s' where "publish msg s = Returned s'" "sent s' = sent s @ [msg]"
      "twist_msg s' = twist_msg s" "reports s' = reports s" "rclpy_ok s' = rclpy_ok s"
      "test_mode s' = test_mode s" "now s' = now s" "env s' = env s"
      "is_publishing s' = is_publishing s" "\<And>n. accepts (Suc n) s \<Longrightarrow> accepts n s'"
    | (fail) "publish msg s = Raised ChannelError s" "chan_budget s = Some 0"
  by (cases "chan_budget s"; cases "the (chan_budget s)") (auto simp: publish_def accepts_def)

lemma publish_accepts:
  "accepts (Suc n) s \<Longrightarrow> \<exists>s'. publish msg s = Returned s'"
  by (auto simp: publish_def accepts_def split: option.splits nat.splits)

lemma publish_unlimited:
  "chan_budget s = None \<Longrightarrow> publish msg s = Returned (s\<lparr>sent := sent s @ [msg]\<rparr>)"
  by (simp add: publish_def)

lemma stop_loop_final:
  "\<exists>k\<le>n. sent (final (stop_loop n s)) = sent s @ replicate k stop_msg"
proof (induction n arbitrary: s)
  case 0
  then show ?case by simp
next
  case (Suc n)
  show ?case
  proof (cases rule: publish_cases [of stop_msg s])
    case (ok s')
    from Suc.IH [of "sleep (1 / 10) s'"] obtain k where
      k: "k \<le> n" "sent (final (stop_loop n (sleep (1 / 10) s'))) = sent s' @ replicate k stop_msg"
      by auto
    have "sent (final (stop_loop (Suc n) s)) = sent s @ replicate (Suc k) stop_msg"
      using ok k by (simp add: replicate_app_Cons_same)
    with k(1) show ?thesis by (intro exI [of _ "Suc k"]) simp
  next
    case fail
    then show ?thesis by (intro exI [of _ 0]) simp
  qed
qed

lemma stop_loop_returned:
  "stop_loop n s = Returned s' \<Longrightarrow> sent s' = sent s @ replicate n stop_msg"
proof (induction n arbitrary: s)
  case 0
  then show ?case by simp
next
  case (Suc n)
  show ?case
  proof (cases rule: publish_cases [of stop_msg s])
    case (ok s1)
    with Suc.prems have "stop_loop n (sleep (1 / 10) s1) = Returned s'" by simp
    from Suc.IH [OF this] ok show ?thesis by (simp add: replicate_app_Cons_same)
  next
    case fail
    with Suc.prems show ?thesis by simp
  qed
qed

lemma stop_loop_accepts:
  "accepts n s \<Longrightarrow> \<exists>s'. stop_loop n s = Returned s'"
proof (induction n arbitrary: s)
  case 0
  then show ?case by simp
next
  case (Suc n)
  show ?case
  proof (cases rule: publish_cases [of stop_msg s])
    case (ok s1)
    have "accepts n (sleep (1 / 10) s1)"
      using ok(10) [OF Suc.prems] by (simp add: accepts_def)
    from Suc.IH [OF this] ok show ?thesis by simp
  next
    case fail
    with Suc.prems show ?thesis by (simp add: accepts_def)
  qed
qed

lemma stop_loop_ideal:
  "env s = [] \<Longrightarrow> chan_budget s = None \<Longrightarrow>
   stop_loop n s = Returned (s\<lparr>sent := sent s @ replicate n stop_msg, now := now s + real n / 10\<rparr>)"
proof (induction n arbitrary: s)
  case 0
  then show ?case by simp
next
  case (Suc n)
  let ?s2 = "sleep (1 / 10) (s\<lparr>sent := sent s @ [stop_msg]\<rparr>)"
  have s2: "?s2 = s\<lparr>sent := sent s @ [stop_msg], now := now s + 1 / 10\<rparr>"
    using Suc.prems by (simp add: sleep_def)
  have "stop_loop (Suc n) s = stop_loop n ?s2"
    using Suc.prems by (simp add: publish_unlimited)
  also have "\<dots> = Returned (?s2\<lparr>sent := sent ?s2 @ replicate n stop_msg, now := now ?s2 + real n / 10\<rparr>)"
    by (rule Suc.IH) (simp_all add: s2 Suc.prems)
  also have "\<dots> = Returned (s\<lparr>sent := sent s @ replicate (Suc n) stop_msg, now := now s + real (Suc n) / 10\<rparr>)"
    by (simp add: s2 replicate_app_Cons_same field_simps)
  finally show ?case .
qed

lemma publish_loop_final:
  assumes "publish_loop st d s = Some r"
  shows "\<exists>k. sent (final r) = sent s @ replicate k (twist_msg s)"
proof (rule publish_loop.raw_induct
    [where P = "\<lambda>st d s r. \<exists>k. sent (final r) = sent s @ replicate k (twist_msg s)", OF _ assms])
  fix f :: "real \<Rightarrow> pyfloat \<Rightarrow> state \<Rightarrow> outcome option" and st d s r
  assume IH: "\<And>st d s r. f st d s = Some r \<Longrightarrow>
                \<exists>k. sent (final r) = sent s @ replicate k (twist_msg s)"
    and body: "(if pf_less (Finite (now s - st)) d \<and> is_publishing s
                then (case publish (twist_msg s) s of
                        Returned s' \<Rightarrow> f st d (sleep sleep_time s')
                      | Raised e s' \<Rightarrow> Some (Raised e s'))
                else Some (Returned s)) = Some r"
  show "\<exists>k. sent (final r) = sent s @ replicate k (twist_msg s)"
  proof (cases "pf_less (Finite (now s - st)) d \<and> is_publishing s")
    case False
    with body have "r = Returned s" by auto
    then show ?thesis by (intro exI [of _ 0]) simp
  next
    case True
    show ?thesis
    proof (cases rule: publish_cases [of "twist_msg s" s])
      case (ok s')
      with True body have "f st d (sleep sleep_time s') = Some r" by simp
      from IH [OF this] obtain k where
        "sent (final r) = sent (sleep sleep_time s') @ replicate k (twist_msg (sleep sleep_time s'))" ..
      with ok have "sent (final r) = sent s @ replicate (Suc k) (twist_msg s)"
        by (simp add: replicate_app_Cons_same)
      then show ?thesis ..
    next
      case fail
      with True body have "r = Raised ChannelError s" by auto
      then show ?thesis by (intro exI [of _ 0]) simp
    qed
  qed
qed

lemma publish_loop_ideal:
  "env s = [] \<Longrightarrow> chan_budget s = None \<Longrightarrow> is_publishing s \<Longrightarrow>
   n = nat \<lceil>(d - (now s - st)) * 10\<rceil> \<Longrightarrow>
   publish_loop st (Finite d) s =
     Some (Returned (s\<lparr>sent := sent s @ replicate n (twist_msg s), now := now s + real n / 10\<rparr>))"
proof (induction n arbitrary: s)
  case 0
  then have "(d - (now s - st)) * 10 \<le> 0" by (simp add: ceiling_le_zero)
  then have "\<not> now s - st < d" by simp
  then show ?case by (subst publish_loop.simps) simp
next
  case (Suc n)
  then have "0 < (d - (now s - st)) * 10" by (smt (verit) ceiling_le_zero nat_le_0 Zero_not_Suc nat_0_iff zero_less_ceiling)
  then have lt: "now s - st < d" by simp
  let ?s2 = "sleep sleep_time (s\<lparr>sent := sent s @ [twist_msg s]\<rparr>)"
  have s2: "?s2 = s\<lparr>sent := sent s @ [twist_msg s], now := now s + 1 / 10\<rparr>"
    using Suc.prems by (simp add: sleep_def sleep_time_def rate_def)
  have n: "n = nat \<lceil>(d - (now ?s2 - st)) * 10\<rceil>"
  proof -
    have "(d - (now ?s2 - st)) * 10 = (d - (now s - st)) * 10 - 1" by (simp add: s2 algebra_simps)
    then have "\<lceil>(d - (now ?s2 - st)) * 10\<rceil> = \<lceil>(d - (now s - st)) * 10\<rceil> - 1"
      by (simp only: ceiling_diff_one)
    with Suc.prems(4) show ?thesis by linarith
  qed
  have "publish_loop st (Finite d) s = publish_loop st (Finite d) ?s2"
    using lt Suc.prems by (subst publish_loop.simps) (simp add: publish_unlimited)
  also have "\<dots> = Some (Returned (?s2\<lparr>sent := sent ?s2 @ replicate n (twist_msg ?s2), now := now ?s2 + real n / 10\<rparr>))"
    by (rule Suc.IH) (simp_all add: s2 Suc.prems n [unfolded s2])
  also have "\<dots> = Some (Returned (s\<lparr>sent := sent s @ replicate (Suc n) (twist_msg s), now := now s + real (Suc n) / 10\<rparr>))"
    by (simp add: s2 replicate_app_Cons_same field_simps)
  finally show ?case .
qed

lemma publish_loop_ideal_terminates:
  "env s = [] \<Longrightarrow> n = nat \<lceil>(d - (now s - st)) * 10\<rceil> \<Longrightarrow> \<exists>r. publish_loop st (Finite d) s = Some r"
proof (induction n arbitrary: s)
  case 0
  then have "(d - (now s - st)) * 10 \<le> 0" by (simp add: ceiling_le_zero)
  then have "\<not> now s - st < d" by simp
  then show ?case by (subst publish_loop.simps) simp
next
  case (Suc n)
  show ?case
  proof (cases "pf_less (Finite (now s - st)) (Finite d) \<and> is_publishing s")
    case False
    then show ?thesis by (subst publish_loop.simps) auto
  next
    case True
    show ?thesis
    proof (cases rule: publish_cases [of "twist_msg s" s])
      case (ok s')
      let ?s2 = "sleep sleep_time s'"
      have e: "env ?s2 = []" and nw: "now ?s2 = now s + 1 / 10"
        using ok Suc.prems(1) by (simp_all add: sleep_def sleep_time_def rate_def)
      have "(d - (now ?s2 - st)) * 10 = (d - (now s - st)) * 10 - 1" by (simp add: nw algebra_simps)
      then have "\<lceil>(d - (now ?s2 - st)) * 10\<rceil> = \<lceil>(d - (now s - st)) * 10\<rceil> - 1"
        by (simp only: ceiling_diff_one)
      with Suc.prems(2) have "n = nat \<lceil>(d - (now ?s2 - st)) * 10\<rceil>" by linarith
      from Suc.IH [OF e this] obtain r where "publish_loop st (Finite d) ?s2 = Some r" ..
      with True ok show ?thesis by (subst publish_loop.simps) simp
    next
      case fail
      with True show ?thesis by (subst publish_loop.simps) simp
    qed
  qed
qed

lemma publish_loop_terminates: "\<exists>r. publish_loop st (Finite d) s = Some r"
proof (induction "env s" arbitrary: s)
  case Nil
  then show ?case using publish_loop_ideal_terminates [of s _ d st] by simp
next
  case (Cons ev evs)
  show ?case
  proof (cases "pf_less (Finite (now s - st)) (Finite d) \<and> is_publishing s")
    case False
    then show ?thesis by (subst publish_loop.simps) auto
  next
    case True
    show ?thesis
    proof (cases rule: publish_cases [of "twist_msg s" s])
      case (ok s')
      have "evs = env (sleep sleep_time s')"
        using ok Cons.hyps(2) [symmetric] by (simp add: sleep_def split: prod.splits)
      from Cons.hyps(1) [OF this] obtain r where "publish_loop st (Finite d) (sleep sleep_time s') = Some r" ..
      with True ok show ?thesis by (subst publish_loop.simps) simp
    next
      case fail
      with True show ?thesis by (subst publish_loop.simps) simp
    qed
  qed
qed

lemma stop_msg_zero: "stop_msg = command (Finite 0) (Finite 0)"
  by (simp add: stop_msg_def Twist_def command_def)

lemma publish_loop_raises:
  assumes "publish_loop st d s = Some r"
  shows "\<forall>e s'. r = Raised e s' \<longrightarrow> e = ChannelError"
proof (rule publish_loop.raw_induct
    [where P = "\<lambda>st d s r. \<forall>e s'. r = Raised e s' \<longrightarrow> e = ChannelError", OF _ assms])
  fix f :: "real \<Rightarrow> pyfloat \<Rightarrow> state \<Rightarrow> outcome option" and st d s r
  assume IH: "\<And>st d s r. f st d s = Some r \<Longrightarrow> \<forall>e s'. r = Raised e s' \<longrightarrow> e = ChannelError"
    and body: "(if pf_less (Finite (now s - st)) d \<and> is_publishing s
                then (case publish (twist_msg s) s of
                        Returned s' \<Rightarrow> f st d (sleep sleep_time s')
                      | Raised e s' \<Rightarrow> Some (Raised e s'))
                else Some (Returned s)) = Some r"
  show "\<forall>e s'. r = Raised e s' \<longrightarrow> e = ChannelError"
  proof (cases "pf_less (Finite (now s - st)) d \<and> is_publishing s")
    case False
    with body show ?thesis by auto
  next
    case True
    show ?thesis
    proof (cases rule: publish_cases [of "twist_msg s" s])
      case (ok s')
      with True body have "f st d (sleep sleep_time s') = Some r" by simp
      from IH [OF this] show ?thesis .
    next
      case fail
      with True body show ?thesis by auto
    qed
  qed
qed

lemma publish_loop_raised: "publish_loop st d s = Some (Raised e s') \<Longrightarrow> e = ChannelError"
  using publish_loop_raises by blast

lemma stop_loop_raised: "stop_loop n s = Raised e s' \<Longrightarrow> e = ChannelError"
proof (induction n arbitrary: s)
  case 0
  then show ?case by simp
next
  case (Suc n)
  show ?case
  proof (cases rule: publish_cases [of stop_msg s])
    case (ok s1)
    with Suc.prems have "stop_loop n (sleep (1 / 10) s1) = Raised e s'" by simp
    then show ?thesis by (rule Suc.IH)
  next
    case fail
    with Suc.prems show ?thesis by simp
  qed
qed

lemma publish_velocity_final:
  assumes "publish_velocity lv av d s = Some r"
  shows "\<exists>k j. j \<le> 5 \<and> sent (final r) = sent s @ replicate k (command lv av) @ replicate j stop_msg"
proof -
  let ?s1 = "s\<lparr>is_publishing := True, twist_msg := command lv av\<rparr>"
  from assms obtain r1 where r1: "publish_loop (now s) d ?s1 = Some r1"
    by (auto simp: publish_velocity_def command_def Let_def split: option.splits)
  from publish_loop_final [OF r1] obtain k where
    k: "sent (final r1) = sent s @ replicate k (command lv av)" by auto
  show ?thesis
  proof (cases r1)
    case (Raised e s2)
    with assms r1 have "r = Raised e s2"
      by (simp add: publish_velocity_def command_def Let_def)
    with k Raised have "sent (final r) = sent s @ replicate k (command lv av) @ replicate 0 stop_msg"
      by simp
    then show ?thesis by blast
  next
    case (Returned s2)
    from stop_loop_final [of 5 s2] obtain j where
      j: "j \<le> 5" "sent (final (stop_robot s2)) = sent s2 @ replicate j stop_msg"
      by (auto simp: stop_robot_def)
    have "sent (final r) = sent (final (stop_robot s2))"
      using assms r1 Returned
      by (cases "stop_robot s2") (auto simp: publish_velocity_def command_def Let_def)
    with j k Returned have "sent (final r) = sent s @ replicate k (command lv av) @ replicate j stop_msg"
      by simp
    with j(1) show ?thesis by blast
  qed
qed

lemma publish_velocity_returned:
  assumes "publish_velocity lv av d s = Some (Returned s')"
  shows "\<exists>k. sent s' = sent s @ replicate k (command lv av) @ replicate 5 stop_msg"
proof -
  let ?s1 = "s\<lparr>is_publishing := True, twist_msg := command lv av\<rparr>"
  from assms obtain s2 where r1: "publish_loop (now s) d ?s1 = Some (Returned s2)"
    by (auto simp: publish_velocity_def command_def Let_def split: option.splits outcome.splits)
  from publish_loop_final [OF r1] obtain k where
    k: "sent s2 = sent s @ replicate k (command lv av)" by auto
  from assms r1 obtain s3 where s3: "stop_loop 5 s2 = Returned s3" and "sent s' = sent s3"
    by (auto simp: publish_velocity_def command_def Let_def stop_robot_def split: outcome.splits)
  with stop_loop_returned [OF s3] k show ?thesis by auto
qed

lemma publish_velocity_raised:
  assumes "publish_velocity lv av d s = Some (Raised e s')"
  shows "e = ChannelError"
  using assms
  by (auto simp: publish_velocity_def Let_def stop_robot_def split: option.splits outcome.splits
      dest: publish_loop_raised stop_loop_raised)

lemma publish_velocity_terminates: "\<exists>r. publish_velocity lv av (Finite d) s = Some r"
proof -
  let ?s1 = "s\<lparr>is_publishing := True, twist_msg := command lv av\<rparr>"
  from publish_loop_terminates obtain r1 where "publish_loop (now s) (Finite d) ?s1 = Some r1"
    by blast
  then show ?thesis
    by (simp add: publish_velocity_def command_def Let_def split: outcome.splits)
qed

lemma publish_velocity_ideal:
  assumes "env s = []" and "chan_budget s = None" and "n = nat \<lceil>d * 10\<rceil>"
  shows "publish_velocity lv av (Finite d) s =
     Some (Returned (s\<lparr>twist_msg := command lv av,
                       sent := sent s @ replicate n (command lv av) @ replicate 5 stop_msg,
                       now := now s + real n / 10 + 1 / 2,
                       reports := reports s @ [real n / 10 + 1 / 2],
                       is_publishing := False\<rparr>))"
proof -
  let ?s1 = "s\<lparr>is_publishing := True, twist_msg := command lv av\<rparr>"
  let ?s2 = "?s1\<lparr>sent := sent ?s1 @ replicate n (twist_msg ?s1), now := now ?s1 + real n / 10\<rparr>"
  have 1: "publish_loop (now s) (Finite d) ?s1 = Some (Returned ?s2)"
    by (rule publish_loop_ideal) (simp_all add: assms)
  have 2: "stop_loop 5 ?s2 =
      Returned (?s2\<lparr>sent := sent ?s2 @ replicate 5 stop_msg, now := now ?s2 + real 5 / 10\<rparr>)"
    by (rule stop_loop_ideal) (simp_all add: assms)
  show ?thesis
    using 1 2 unfolding publish_velocity_def Let_def command_def [symmetric]
    by (simp add: stop_robot_def)
qed

lemma ask_continue_state: "ask_continue inp s = (fl, s', rest) \<Longrightarrow> s' = s"
  by (cases "(inp, s)" rule: ask_continue.cases) (auto simp: Let_def split: if_splits)






lemma iteration_cases:
  assumes "iteration m inp s = Some (fl, s', rest')"
  obtains (idle) "s' = s"
    | (linear) v d rest r where "m = Linear" "get_test_parameters inp = (Inr (Some (v, d)), rest)"
        "publish_velocity v (Finite 0) d s = Some r" "s' = final r"
    | (angular) v d rest r where "m = Angular" "get_test_parameters inp = (Inr (Some (v, d)), rest)"
        "publish_velocity (Finite 0) v d s = Some r" "s' = final r"
proof (cases m)
  case Exit
  with assms have "s' = s" by (auto simp: iteration_def dest: ask_continue_state)
  then show ?thesis by (rule idle)
next
  case Linear
  show ?thesis
  proof (cases "get_test_parameters inp")
    case (Pair res rest)
    show ?thesis
    proof (cases res)
      case (Inl e)
      with Pair Linear assms have "s' = s"
        by (simp add: iteration_def get_linear_test_parameters_def)
      then show ?thesis by (rule idle)
    next
      case (Inr p)
      show ?thesis
      proof (cases p)
        case None
        with Inr Pair Linear assms have "s' = s"
          by (simp add: iteration_def get_linear_test_parameters_def)
        then show ?thesis by (rule idle)
      next
        case (Some vd)
        obtain v d where vd: "vd = (v, d)" by (cases vd)
        from assms Linear Pair Inr Some vd obtain r where
          r: "publish_velocity v (Finite 0) d s = Some r" "ask_continue rest (final r) = (fl, s', rest')"
          by (auto simp: iteration_def get_linear_test_parameters_def split: option.splits)
        from r(2) have "s' = final r" by (rule ask_continue_state)
        with Linear Pair Inr Some vd r(1) show ?thesis by (intro linear) simp_all
      qed
    qed
  qed
next
  case Angular
  show ?thesis
  proof (cases "get_test_parameters inp")
    case (Pair res rest)
    show ?thesis
    proof (cases res)
      case (Inl e)
      with Pair Angular assms have "s' = s"
        by (simp add: iteration_def get_angular_test_parameters_def)
      then show ?thesis by (rule idle)
    next
      case (Inr p)
      show ?thesis
      proof (cases p)
        case None
        with Inr Pair Angular assms have "s' = s"
          by (simp add: iteration_def get_angular_test_parameters_def)
        then show ?thesis by (rule idle)
      next
        case (Some vd)
        obtain v d where vd: "vd = (v, d)" by (cases vd)
        from assms Angular Pair Inr Some vd obtain r where
          r: "publish_velocity (Finite 0) v d s = Some r" "ask_continue rest (final r) = (fl, s', rest')"
          by (auto simp: iteration_def get_angular_test_parameters_def split: option.splits)
        from r(2) have "s' = final r" by (rule ask_continue_state)
        with Angular Pair Inr Some vd r(1) show ?thesis by (intro angular) simp_all
      qed
    qed
  qed
qed

lemma planar_command: "planar (command lv av)"
  by (simp add: planar_def command_def)

lemma planar_stop_msg: "planar stop_msg"
  by (simp add: stop_msg_zero planar_command)

lemma planar_stop_robot: "planar_log s \<Longrightarrow> planar_log (final (stop_robot s))"
  using stop_loop_final [of 5 s] by (auto simp: planar_log_def stop_robot_def planar_stop_msg)

lemma planar_publish_velocity:
  "planar_log s \<Longrightarrow> publish_velocity lv av d s = Some r \<Longrightarrow> planar_log (final r)"
  by (auto simp: planar_log_def planar_stop_msg planar_command dest!: publish_velocity_final)

lemma planar_iteration:
  assumes "planar_log s" and "iteration m inp s = Some (fl, s', rest')"
  shows "planar_log s'"
  using assms(2)
proof (cases rule: iteration_cases)
  case idle
  with assms(1) show ?thesis by simp
next
  case (linear v d rest r)
  with assms(1) show ?thesis by (auto dest: planar_publish_velocity)
next
  case (angular v d rest r)
  with assms(1) show ?thesis by (auto dest: planar_publish_velocity)
qed

lemma planar_testing_loop:
  assumes "testing_loop m inp s = Some res"
  shows "planar_log s \<longrightarrow> planar_log (final (fst res))"
proof (rule testing_loop.raw_induct
    [where P = "\<lambda>m inp s res. planar_log s \<longrightarrow> planar_log (final (fst res))", OF _ assms])
  fix f :: "mode \<Rightarrow> console list \<Rightarrow> state \<Rightarrow> (outcome \<times> console list) option"
    and m inp s res
  assume IH: "\<And>m inp s res. f m inp s = Some res \<Longrightarrow>
                planar_log s \<longrightarrow> planar_log (final (fst res))"
    and body: "(if rclpy_ok s
                then (case iteration m inp s of
                        None \<Rightarrow> None
                      | Some (Continue, s', rest) \<Rightarrow> f m rest s'
                      | Some (Break, s', rest) \<Rightarrow> Some (Returned s', rest)
                      | Some (Raise e, s', rest) \<Rightarrow> Some (Raised e s', rest))
                else Some (Returned s, inp)) = Some res"
  show "planar_log s \<longrightarrow> planar_log (final (fst res))"
  proof
    assume inv: "planar_log s"
    show "planar_log (final (fst res))"
    proof (cases "rclpy_ok s")
      case False
      with body inv show ?thesis by auto
    next
      case True
      with body obtain fl s' rest where it: "iteration m inp s = Some (fl, s', rest)"
        by (cases "iteration m inp s") auto
      from planar_iteration [OF inv it] have inv': "planar_log s'" .
      show ?thesis
      proof (cases fl)
        case Continue
        with True it body have "f m rest s' = Some res" by simp
        from IH [OF this] inv' show ?thesis by simp
      next
        case Break
        with True it body inv' show ?thesis by auto
      next
        case (Raise e)
        with True it body inv' show ?thesis by auto
      qed
    qed
  qed
qed

lemma planar_user_interface:
  assumes "planar_log s" and "user_interface inp s = Some (r, rest)"
  shows "planar_log (final r)"
proof (cases "get_test_mode inp")
  case (Pair res rest0)
  show ?thesis
  proof (cases res)
    case (Inl e)
    with Pair assms show ?thesis by (auto simp: user_interface_def)
  next
    case (Inr m)
    let ?s1 = "s\<lparr>test_mode := Some m\<rparr>"
    have inv1: "planar_log ?s1" using assms(1) by (simp add: planar_log_def)
    show ?thesis
    proof (cases "m = Exit")
      case True
      with Pair Inr assms(2) have "r = Returned (shutdown ?s1)"
        by (simp add: user_interface_def)
      with inv1 show ?thesis by (simp add: planar_log_def shutdown_def)
    next
      case False
      with Pair Inr assms(2) obtain r2 rest2 where
        tl: "testing_loop m rest0 ?s1 = Some (r2, rest2)"
        by (auto simp: user_interface_def Let_def split: option.splits)
      from planar_testing_loop [OF tl] inv1 have "planar_log (final r2)" by simp
      moreover have "sent (final r) = sent (final r2)"
        using False Pair Inr assms(2) tl
        by (cases r2) (auto simp: user_interface_def Let_def shutdown_def)
      ultimately show ?thesis by (simp add: planar_log_def)
    qed
  qed
qed

lemma planar_main_finally:
  "planar_log s \<Longrightarrow> planar_log (final (main_finally node_exists pending s))"
  using planar_stop_robot [of s]
  by (cases "stop_robot s")
     (auto simp: main_finally_def planar_log_def shutdown_def split: option.splits)

subsection \<open>Evaluating \<^verbatim>\<open>float\<close> on the literals of the specification\<close>

lemmas float_defs = py_float_def strip_def is_space_def parse_abs_def lower_def lower_char_def
  parse_floatnumber_def parse_number_def parse_exponent_def digits_val_def is_digit_def
  digit_of_def negate_def of_literal_def

lemma float_abc: "py_float ''abc'' = None"
  by (simp add: float_defs)

lemma float_3_0: "py_float ''3.0'' = Some (Finite 3)"
  by (simp add: float_defs)

lemma float_neg_1: "py_float ''-1'' = Some (Finite (- 1))"
  by (simp add: float_defs)

lemma float_2_5: "py_float ''2.5'' = Some (Finite (5 / 2))"
  by (simp add: float_defs)

lemma float_1: "py_float ''1'' = Some (Finite 1)"
  by (simp add: float_defs)

lemma float_0: "py_float ''0'' = Some (Finite 0)"
  by (simp add: float_defs)

lemma float_0_1: "py_float ''0.1'' = Some (Finite (1 / 10))"
  by (simp add: float_defs)

subsection \<open>A test of one tick, evaluated\<close>

lemma gtp_example:
  "get_test_parameters [Line ''1'', Line ''0.1'', Line ''n''] =
     (Inr (Some (Finite 1, Finite (1 / 10))), [Line ''n''])"
  by (simp add: float_1 float_0_1)

lemma session_example:
  assumes "env s = []" and "chan_budget s = None"
  shows "publish_velocity lv av (Finite (1 / 10)) s = Some (Returned (after_session lv av s))"
  using publish_velocity_ideal [OF assms, of 1 "1 / 10" lv av]
  by (simp add: after_session_def eval_nat_numeral)

lemma iteration_linear_example:
  assumes "env s = []" and "chan_budget s = None"
  shows "iteration Linear [Line ''1'', Line ''0.1'', Line ''n''] s =
     Some (Break, after_session (Finite 1) (Finite 0) s, [])"
  unfolding iteration_def get_linear_test_parameters_def gtp_example
  by (simp add: session_example [OF assms] lower_def lower_char_def strip_def is_space_def Let_def)

lemma iteration_angular_example:
  assumes "env s = []" and "chan_budget s = None"
  shows "iteration Angular [Line ''1'', Line ''0.1'', Line ''n''] s =
     Some (Break, after_session (Finite 0) (Finite 1) s, [])"
  unfolding iteration_def get_angular_test_parameters_def gtp_example
  by (simp add: session_example [OF assms] lower_def lower_char_def strip_def is_space_def Let_def)

lemma user_interface_example:
  "user_interface [Line ''1'', Line ''1'', Line ''0.1'', Line ''n''] init_state =
     Some (Returned
       (shutdown (after_session (Finite 1) (Finite 0) (init_state\<lparr>test_mode := Some Linear\<rparr>))), [])"
proof -
  let ?s1 = "init_state\<lparr>test_mode := Some Linear\<rparr>"
  have e: "env ?s1 = []" "chan_budget ?s1 = None" "rclpy_ok ?s1"
    by (simp_all add: init_state_def)
  have "testing_loop Linear [Line ''1'', Line ''0.1'', Line ''n''] ?s1 =
      Some (Returned (after_session (Finite 1) (Finite 0) ?s1), [])"
    by (subst testing_loop.simps) (simp add: e iteration_linear_example)
  then show ?thesis
    by (simp add: user_interface_def strip_def is_space_def Let_def)
qed

subsection \<open>Input that is read again\<close>


subsection \<open>Any number of rejected attempts\<close>




subsection \<open>A cancelled test, evaluated\<close>

text \<open>
  A test of two seconds during whose first sleep another thread clears \<open>is_publishing\<close>:
  one tick, then the five stop commands.
\<close>

lemmas run_defs = publish_velocity_def stop_robot_def publish_def sleep_def sleep_time_def
  rate_def init_state_def command_def Let_def eval_nat_numeral

lemma cancelled_example:
  "publish_velocity (Finite (1 / 2)) (Finite 0) (Finite 2) (init_state\<lparr>env := [(0, True)]\<rparr>) =
     Some (Returned
       (init_state\<lparr>twist_msg := command (Finite (1 / 2)) (Finite 0),
          sent := [command (Finite (1 / 2)) (Finite 0),
                   stop_msg, stop_msg, stop_msg, stop_msg, stop_msg],
          now := 3 / 5,
          reports := [3 / 5]\<rparr>))"
  by (simp add: run_defs publish_loop.simps)

subsection \<open>What one pass of the interface loop sends\<close>

lemma iteration_session:
  assumes "get_test_parameters inp = (Inr (Some (v, d)), rest)"
    and "iteration m inp s = Some (fl, s', rest')"
  shows "m \<noteq> Angular \<longrightarrow>
           (\<exists>k j. j \<le> 5 \<and> sent s' = sent s @ replicate k (command v (Finite 0)) @ replicate j stop_msg)"
    and "m = Angular \<longrightarrow>
           (\<exists>k j. j \<le> 5 \<and> sent s' = sent s @ replicate k (command (Finite 0) v) @ replicate j stop_msg)"
proof -
  have same: "\<exists>k j. j \<le> 5 \<and> sent s' = sent s @ replicate k c @ replicate j stop_msg"
    if "s' = s" for c
    using that by (intro exI [of _ 0]) simp
  from assms(2) show "m \<noteq> Angular \<longrightarrow>
           (\<exists>k j. j \<le> 5 \<and> sent s' = sent s @ replicate k (command v (Finite 0)) @ replicate j stop_msg)"
  proof (cases rule: iteration_cases)
    case idle
    then show ?thesis by (simp add: same)
  next
    case (linear v' d' rest0 r)
    with assms(1) have "publish_velocity v (Finite 0) d s = Some r" by simp
    from publish_velocity_final [OF this] linear(4) show ?thesis by simp
  next
    case (angular v' d' rest0 r)
    then show ?thesis by simp
  qed
  from assms(2) show "m = Angular \<longrightarrow>
           (\<exists>k j. j \<le> 5 \<and> sent s' = sent s @ replicate k (command (Finite 0) v) @ replicate j stop_msg)"
  proof (cases rule: iteration_cases)
    case idle
    then show ?thesis by (simp add: same)
  next
    case (linear v' d' rest0 r)
    then show ?thesis by simp
  next
    case (angular v' d' rest0 r)
    with assms(1) have "publish_velocity (Finite 0) v d s = Some r" by simp
    from publish_velocity_final [OF this] angular(4) show ?thesis by simp
  qed
qed

section \<open>The claims\<close>

subsection \<open>C1: the stop sequence on the ways out of \<^verbatim>\<open>publish_velocity\<close>\<close>

text \<open>
  C1, as stated, fails on the path where the publisher raises. With a publisher that
  accepts two messages, a test of one second is left by the exception of the third
  \<^verbatim>\<open>publish\<close>: the log holds the two ticks and no stop command, and \<open>is_publishing\<close>
  is still set. There is no \<^verbatim>\<open>try\<close> in \<^verbatim>\<open>publish_velocity\<close>.
\<close>

theorem C1_counterexample:
  "publish_velocity (Finite (1 / 2)) (Finite 0) (Finite 1) (init_state\<lparr>chan_budget := Some 2\<rparr>) =
     Some (Raised ChannelError
       (init_state\<lparr>is_publishing := True,
          twist_msg := command (Finite (1 / 2)) (Finite 0),
          sent := [command (Finite (1 / 2)) (Finite 0), command (Finite (1 / 2)) (Finite 0)],
          chan_budget := Some 0,
          now := 1 / 5\<rparr>))"
  by (simp add: run_defs publish_loop.simps)

text \<open>
  C1, amended. Whenever \<^verbatim>\<open>publish_velocity\<close> returns (the duration has elapsed, or
  \<open>is_publishing\<close> was cleared), the log has grown by the ticks of the test followed by
  exactly five stop commands. The \<^verbatim>\<open>finally\<close> clause of \<^verbatim>\<open>main\<close> calls
  \<^verbatim>\<open>stop_robot\<close> whenever the node was created, however the \<^verbatim>\<open>try\<close> block ended: it
  hands up to five stop commands to the publisher, all five when the publisher accepts
  them; when the node was never created it sends nothing.
\<close>

theorem C1_stop_sequence_before_return:
  "(publish_velocity lv av d s = Some (Returned s') \<longrightarrow>
      (\<exists>k. sent s' = sent s @ replicate k (command lv av) @ replicate 5 stop_msg)) \<and>
   (\<exists>k\<le>5. sent (final (main_finally True pending s)) = sent s @ replicate k stop_msg) \<and>
   (accepts 5 s \<longrightarrow>
      sent (final (main_finally True pending s)) = sent s @ replicate 5 stop_msg) \<and>
   sent (final (main_finally False pending s)) = sent s"
proof -
  have 1: "\<exists>k. sent s' = sent s @ replicate k (command lv av) @ replicate 5 stop_msg"
    if "publish_velocity lv av d s = Some (Returned s')"
    using that by (rule publish_velocity_returned)
  have m: "sent (final (main_finally True pending s)) = sent (final (stop_loop 5 s))"
    by (cases "stop_loop 5 s"; cases pending)
       (simp_all add: main_finally_def stop_robot_def shutdown_def)
  have 2: "\<exists>k\<le>5. sent (final (main_finally True pending s)) = sent s @ replicate k stop_msg"
    unfolding m by (rule stop_loop_final)
  have 3: "sent (final (main_finally True pending s)) = sent s @ replicate 5 stop_msg"
    if "accepts 5 s"
  proof -
    from stop_loop_accepts [OF that] obtain s2 where s2: "stop_loop 5 s = Returned s2" ..
    from stop_loop_returned [OF s2] s2 show ?thesis unfolding m by simp
  qed
  have 4: "sent (final (main_finally False pending s)) = sent s"
    by (cases pending) (simp_all add: main_finally_def shutdown_def)
  from 1 2 3 4 show ?thesis by blast
qed

text \<open>A cancelled test, and the exit of \<^verbatim>\<open>main\<close> from the initial state.\<close>

theorem C1_witness:
  "publish_velocity (Finite (1 / 2)) (Finite 0) (Finite 2) (init_state\<lparr>env := [(0, True)]\<rparr>) =
     Some (Returned
       (init_state\<lparr>twist_msg := command (Finite (1 / 2)) (Finite 0),
          sent := [command (Finite (1 / 2)) (Finite 0),
                   stop_msg, stop_msg, stop_msg, stop_msg, stop_msg],
          now := 3 / 5,
          reports := [3 / 5]\<rparr>)) \<and>
   (\<exists>k. [command (Finite (1 / 2)) (Finite 0), stop_msg, stop_msg, stop_msg, stop_msg, stop_msg] =
        replicate k (command (Finite (1 / 2)) (Finite 0)) @ replicate 5 stop_msg) \<and>
   accepts 5 init_state \<and>
   sent (final (main_finally True None init_state)) = replicate 5 stop_msg"
proof -
  have h: "accepts 5 init_state" "sent init_state = []"
    by (simp_all add: accepts_def init_state_def)
  from C1_stop_sequence_before_return
      [where lv = "Finite (1 / 2)" and av = "Finite 0" and d = "Finite 2"
         and s = "init_state\<lparr>env := [(0, True)]\<rparr>"
         and s' = "init_state\<lparr>twist_msg := command (Finite (1 / 2)) (Finite 0),
          sent := [command (Finite (1 / 2)) (Finite 0),
                   stop_msg, stop_msg, stop_msg, stop_msg, stop_msg],
          now := 3 / 5,
          reports := [3 / 5]\<rparr>"]
    cancelled_example
  have a: "\<exists>k. [command (Finite (1 / 2)) (Finite 0), stop_msg, stop_msg, stop_msg, stop_msg, stop_msg] =
        replicate k (command (Finite (1 / 2)) (Finite 0)) @ replicate 5 stop_msg"
    by (simp add: init_state_def)
  from C1_stop_sequence_before_return [where s = init_state and pending = None] h
  have b: "sent (final (main_finally True None init_state)) = replicate 5 stop_msg"
    by simp
  from a b h(1) cancelled_example show ?thesis by blast
qed

subsection \<open>C2: the stop sequence\<close>

text \<open>
  C2. Whatever the state \<^verbatim>\<open>stop_robot\<close> is called in, every message it hands to the
  publisher has all six components zero and there are at most five of them; when the
  publisher accepts five more messages, \<^verbatim>\<open>stop_robot\<close> returns and has appended exactly
  five zero commands to the log. The node's fields are not read, so a robot already at rest
  gets the same five commands.
\<close>

theorem C2_stop_robot_five_zero_commands:
  "(\<exists>k\<le>5. sent (final (stop_robot s)) =
       sent s @ replicate k \<lparr>linear_x = Finite 0, linear_y = Finite 0, linear_z = Finite 0,
                              angular_x = Finite 0, angular_y = Finite 0, angular_z = Finite 0\<rparr>) \<and>
   (accepts 5 s \<longrightarrow>
      (\<exists>s'. stop_robot s = Returned s' \<and>
         sent s' = sent s @ replicate 5 \<lparr>linear_x = Finite 0, linear_y = Finite 0,
                     linear_z = Finite 0, angular_x = Finite 0, angular_y = Finite 0,
                     angular_z = Finite 0\<rparr>))"
proof -
  have z: "stop_msg = \<lparr>linear_x = Finite 0, linear_y = Finite 0, linear_z = Finite 0,
                       angular_x = Finite 0, angular_y = Finite 0, angular_z = Finite 0\<rparr>"
    by (simp add: stop_msg_def Twist_def)
  have 1: "\<exists>k\<le>5. sent (final (stop_robot s)) = sent s @ replicate k stop_msg"
    unfolding stop_robot_def by (rule stop_loop_final)
  have 2: "\<exists>s'. stop_robot s = Returned s' \<and> sent s' = sent s @ replicate 5 stop_msg"
    if "accepts 5 s"
  proof -
    from stop_loop_accepts [OF that] obtain s' where s': "stop_loop 5 s = Returned s'" ..
    from stop_loop_returned [OF s'] s' show ?thesis by (auto simp: stop_robot_def)
  qed
  from 1 2 show ?thesis unfolding z by blast
qed

text \<open>At a log that already holds a moving command, on a publisher that never raises.\<close>

theorem C2_witness:
  "accepts 5 (init_state\<lparr>sent := [command (Finite 1) (Finite 0)]\<rparr>) \<and>
   sent (final (stop_robot (init_state\<lparr>sent := [command (Finite 1) (Finite 0)]\<rparr>))) =
     [command (Finite 1) (Finite 0),
      command (Finite 0) (Finite 0), command (Finite 0) (Finite 0), command (Finite 0) (Finite 0),
      command (Finite 0) (Finite 0), command (Finite 0) (Finite 0)]"
proof -
  let ?s = "init_state\<lparr>sent := [command (Finite 1) (Finite 0)]\<rparr>"
  have h: "accepts 5 ?s" by (simp add: accepts_def init_state_def)
  with C2_stop_robot_five_zero_commands [of ?s] obtain s' where
    "stop_robot ?s = Returned s'"
    "sent s' = sent ?s @ replicate 5 (command (Finite 0) (Finite 0))"
    unfolding command_def by blast
  then have "sent (final (stop_robot ?s)) = sent ?s @ replicate 5 (command (Finite 0) (Finite 0))"
    by simp
  with h show ?thesis by (simp add: eval_nat_numeral)
qed

subsection \<open>C3: the command of a session\<close>

text \<open>
  C3. When the collector has returned the pair (magnitude, duration), the pass of the
  interface loop that runs the test appends to the log only copies of one command,
  followed by stop commands (five, unless the publisher raised): in linear mode the command
  is \<open>linear.x = magnitude\<close> with every other component zero, in angular mode
  \<open>angular.z = magnitude\<close> with every other component zero.
\<close>

theorem C3_session_command:
  assumes "f = get_linear_test_parameters \<or> f = get_angular_test_parameters"
    and "f inp = (Inr (Some (magnitude, duration)), rest)"
    and "iteration m inp s = Some (fl, s', rest')"
  shows "(m = Linear \<longrightarrow>
           (\<exists>k j. j \<le> 5 \<and>
              sent s' = sent s
                @ replicate k \<lparr>linear_x = magnitude, linear_y = Finite 0, linear_z = Finite 0,
                     angular_x = Finite 0, angular_y = Finite 0, angular_z = Finite 0\<rparr>
                @ replicate j stop_msg)) \<and>
         (m = Angular \<longrightarrow>
           (\<exists>k j. j \<le> 5 \<and>
              sent s' = sent s
                @ replicate k \<lparr>linear_x = Finite 0, linear_y = Finite 0, linear_z = Finite 0,
                     angular_x = Finite 0, angular_y = Finite 0, angular_z = magnitude\<rparr>
                @ replicate j stop_msg))"
proof -
  from assms(1,2) have "get_test_parameters inp = (Inr (Some (magnitude, duration)), rest)"
    by (auto simp: get_linear_test_parameters_def get_angular_test_parameters_def)
  from iteration_session [OF this assms(3)] show ?thesis
    unfolding command_def by simp
qed

text \<open>The velocity \<^verbatim>\<open>1\<close> for \<^verbatim>\<open>0.1\<close> seconds, in linear and in angular mode.\<close>

theorem C3_witness:
  "get_linear_test_parameters [Line ''1'', Line ''0.1'', Line ''n''] =
     (Inr (Some (Finite 1, Finite (1 / 10))), [Line ''n'']) \<and>
   iteration Linear [Line ''1'', Line ''0.1'', Line ''n''] init_state =
     Some (Break, after_session (Finite 1) (Finite 0) init_state, []) \<and>
   iteration Angular [Line ''1'', Line ''0.1'', Line ''n''] init_state =
     Some (Break, after_session (Finite 0) (Finite 1) init_state, []) \<and>
   (\<exists>k j. j \<le> 5 \<and>
      sent (after_session (Finite 1) (Finite 0) init_state) = sent init_state
        @ replicate k \<lparr>linear_x = Finite 1, linear_y = Finite 0, linear_z = Finite 0,
             angular_x = Finite 0, angular_y = Finite 0, angular_z = Finite 0\<rparr>
        @ replicate j stop_msg) \<and>
   (\<exists>k j. j \<le> 5 \<and>
      sent (after_session (Finite 0) (Finite 1) init_state) = sent init_state
        @ replicate k \<lparr>linear_x = Finite 0, linear_y = Finite 0, linear_z = Finite 0,
             angular_x = Finite 0, angular_y = Finite 0, angular_z = Finite 1\<rparr>
        @ replicate j stop_msg)"
proof -
  have e: "env init_state = []" "chan_budget init_state = None"
    by (simp_all add: init_state_def)
  have g: "get_linear_test_parameters [Line ''1'', Line ''0.1'', Line ''n''] =
     (Inr (Some (Finite 1, Finite (1 / 10))), [Line ''n''])"
    unfolding get_linear_test_parameters_def by (rule gtp_example)
  note l = iteration_linear_example [OF e]
  note a = iteration_angular_example [OF e]
  from C3_session_command [OF disjI1 [OF refl] g l]
  have 1: "\<exists>k j. j \<le> 5 \<and>
      sent (after_session (Finite 1) (Finite 0) init_state) = sent init_state
        @ replicate k \<lparr>linear_x = Finite 1, linear_y = Finite 0, linear_z = Finite 0,
             angular_x = Finite 0, angular_y = Finite 0, angular_z = Finite 0\<rparr>
        @ replicate j stop_msg"
    by simp
  from C3_session_command [OF disjI1 [OF refl] g a]
  have 2: "\<exists>k j. j \<le> 5 \<and>
      sent (after_session (Finite 0) (Finite 1) init_state) = sent init_state
        @ replicate k \<lparr>linear_x = Finite 0, linear_y = Finite 0, linear_z = Finite 0,
             angular_x = Finite 0, angular_y = Finite 0, angular_z = Finite 1\<rparr>
        @ replicate j stop_msg"
    by simp
  from g l a 1 2 show ?thesis by blast
qed

subsection \<open>C4: rejected input is asked again\<close>




subsection \<open>C5: the literal inputs of the specification\<close>

text \<open>
  C5, as stated, fails. On the four lines \<^verbatim>\<open>abc\<close>, \<^verbatim>\<open>3.0\<close>, \<^verbatim>\<open>-1\<close>, \<^verbatim>\<open>2.5\<close> the
  collector rejects \<^verbatim>\<open>abc\<close>, reads \<^verbatim>\<open>3.0\<close> and \<^verbatim>\<open>-1\<close>, rejects the duration and starts
  again at the velocity prompt: \<^verbatim>\<open>2.5\<close> is read as the velocity, and the duration prompt
  meets the end of the input.
\<close>

theorem C5_counterexample:
  "get_linear_test_parameters [Line ''abc'', Line ''3.0'', Line ''-1'', Line ''2.5'']
     = (Inl EOFError, []) \<and>
   get_linear_test_parameters [Line ''abc'', Line ''3.0'', Line ''-1'', Line ''2.5'']
     \<noteq> (Inr (Some (Finite 3, Finite (5 / 2))), [])"
  by (simp add: get_linear_test_parameters_def float_abc float_3_0 float_neg_1 float_2_5)

text \<open>
  C5, amended. \<^verbatim>\<open>abc\<close> is not a number and \<^verbatim>\<open>-1\<close> is a duration \<^verbatim>\<open><= 0\<close>: each is
  rejected. After the rejected duration the velocity is asked again, so the collector
  returns \<open>(3.0, 2.5)\<close> on the five lines \<^verbatim>\<open>abc\<close>, \<^verbatim>\<open>3.0\<close>, \<^verbatim>\<open>-1\<close>, \<^verbatim>\<open>3.0\<close>,
  \<^verbatim>\<open>2.5\<close>.
\<close>

theorem C5_magnitude_is_asked_again:
  "py_float ''abc'' = None \<and>
   py_float ''-1'' = Some (Finite (- 1)) \<and> pf_le (Finite (- 1)) (Finite 0) \<and>
   get_linear_test_parameters
     [Line ''abc'', Line ''3.0'', Line ''-1'', Line ''3.0'', Line ''2.5'']
     = (Inr (Some (Finite 3, Finite (5 / 2))), [])"
  by (simp add: get_linear_test_parameters_def float_abc float_3_0 float_neg_1 float_2_5)

subsection \<open>C6: no guard against a running session\<close>

text \<open>
  C6, as stated, fails: there is no \<^verbatim>\<open>AlreadyRunning\<close>. Called while
  \<open>is_publishing\<close> is set, \<^verbatim>\<open>publish_velocity\<close> returns normally after sending one
  tick and the five stop commands.
\<close>

theorem C6_counterexample:
  "publish_velocity (Finite 1) (Finite 0) (Finite (1 / 10)) (init_state\<lparr>is_publishing := True\<rparr>) =
     Some (Returned
       (init_state\<lparr>is_publishing := True,
          twist_msg := command (Finite 1) (Finite 0),
          sent := [command (Finite 1) (Finite 0), stop_msg, stop_msg, stop_msg, stop_msg, stop_msg],
          now := 3 / 5,
          reports := [3 / 5],
          is_publishing := False\<rparr>))"
  using session_example [of "init_state\<lparr>is_publishing := True\<rparr>" "Finite 1" "Finite 0"]
  by (simp add: init_state_def after_session_def)

text \<open>
  C6, amended. \<^verbatim>\<open>publish_velocity\<close> does not read \<open>is_publishing\<close> before it sets
  it: the call does the same whatever the flag was, and a call made while the flag is set
  runs the whole test (with exact sleeps and a publisher that never raises:
  \<open>\<lceil>10 * duration\<rceil>\<close> ticks and the five stop commands). Two tests do not overlap because
  \<^verbatim>\<open>user_interface\<close> joins the thread of a test before it prompts again.
\<close>

theorem C6_no_guard_on_is_publishing:
  "publish_velocity lv av d (s\<lparr>is_publishing := b\<rparr>) = publish_velocity lv av d s \<and>
   (is_publishing s \<and> env s = [] \<and> chan_budget s = None \<longrightarrow>
      (\<exists>s'. publish_velocity lv av (Finite dur) s = Some (Returned s') \<and>
         sent s' = sent s @ replicate (nat \<lceil>dur * 10\<rceil>) (command lv av) @ replicate 5 stop_msg))"
proof -
  have 1: "publish_velocity lv av d (s\<lparr>is_publishing := b\<rparr>) = publish_velocity lv av d s"
    by (simp add: publish_velocity_def)
  have 2: "\<exists>s'. publish_velocity lv av (Finite dur) s = Some (Returned s') \<and>
         sent s' = sent s @ replicate (nat \<lceil>dur * 10\<rceil>) (command lv av) @ replicate 5 stop_msg"
    if "env s = []" "chan_budget s = None"
    using publish_velocity_ideal [OF that refl, where d = dur and lv = lv and av = av] by simp
  from 1 2 show ?thesis by blast
qed

theorem C6_witness:
  "is_publishing (init_state\<lparr>is_publishing := True\<rparr>) \<and>
   env (init_state\<lparr>is_publishing := True\<rparr>) = [] \<and>
   chan_budget (init_state\<lparr>is_publishing := True\<rparr>) = None \<and>
   (\<exists>s'. publish_velocity (Finite 1) (Finite 0) (Finite 2) (init_state\<lparr>is_publishing := True\<rparr>)
            = Some (Returned s') \<and>
          sent s' = replicate 20 (command (Finite 1) (Finite 0)) @ replicate 5 stop_msg)"
proof -
  let ?s = "init_state\<lparr>is_publishing := True\<rparr>"
  have h: "is_publishing ?s" "env ?s = []" "chan_budget ?s = None" "sent ?s = []"
    by (simp_all add: init_state_def)
  have n: "nat \<lceil>(2::real) * 10\<rceil> = 20" by simp
  from C6_no_guard_on_is_publishing [where lv = "Finite 1" and av = "Finite 0" and s = ?s and dur = 2] h
  have "\<exists>s'. publish_velocity (Finite 1) (Finite 0) (Finite 2) ?s = Some (Returned s') \<and>
          sent s' = sent ?s @ replicate (nat \<lceil>(2::real) * 10\<rceil>) (command (Finite 1) (Finite 0))
            @ replicate 5 stop_msg"
    by blast
  then show ?thesis unfolding n h(4) using h(1-3) by simp
qed

subsection \<open>C7: the number of ticks\<close>

text \<open>
  C7, as stated, fails. \<^verbatim>\<open>time.sleep(0.1)\<close> may last longer than asked: when the
  first sleep of a test of \<^verbatim>\<open>0.2\<close> seconds lasts \<^verbatim>\<open>0.2\<close> seconds, the loop ends after one
  tick, fewer than \<open>\<lfloor>0.2 * 10\<rfloor> = 2\<close>. Likewise a test of two seconds whose flag is
  cleared during the first sleep sends one tick, fewer than \<open>20\<close>. Both are followed by the
  five stop commands.
\<close>

theorem C7_counterexample:
  "publish_velocity (Finite (1 / 2)) (Finite 0) (Finite (1 / 5))
     (init_state\<lparr>env := [(1 / 10, False)]\<rparr>) =
     Some (Returned
       (init_state\<lparr>twist_msg := command (Finite (1 / 2)) (Finite 0),
          sent := [command (Finite (1 / 2)) (Finite 0),
                   stop_msg, stop_msg, stop_msg, stop_msg, stop_msg],
          now := 7 / 10,
          reports := [7 / 10]\<rparr>)) \<and>
   (1::int) < \<lfloor>(1 / 5 :: real) * 10\<rfloor> \<and>
   publish_velocity (Finite (1 / 2)) (Finite 0) (Finite 2) (init_state\<lparr>env := [(0, True)]\<rparr>) =
     Some (Returned
       (init_state\<lparr>twist_msg := command (Finite (1 / 2)) (Finite 0),
          sent := [command (Finite (1 / 2)) (Finite 0),
                   stop_msg, stop_msg, stop_msg, stop_msg, stop_msg],
          now := 3 / 5,
          reports := [3 / 5]\<rparr>)) \<and>
   (1::int) < \<lfloor>(2 :: real) * 10\<rfloor>"
  by (simp add: run_defs publish_loop.simps)

text \<open>
  C7, amended. A test with a finite duration always ends. Whenever \<^verbatim>\<open>publish_velocity\<close>
  returns, on completion or on cancellation, the log has grown by the ticks followed by
  exactly five stop commands. When every sleep lasts exactly \<^verbatim>\<open>0.1\<close> seconds, nothing
  clears the flag and the publisher never raises, the number of ticks is
  \<open>\<lceil>duration * 10\<rceil>\<close>, which is at least \<open>\<lfloor>duration * 10\<rfloor>\<close>.
\<close>

theorem C7_ticks_then_five_stop_commands:
  "(\<exists>r. publish_velocity lv av (Finite d) s = Some r) \<and>
   (publish_velocity lv av dur s = Some (Returned s') \<longrightarrow>
      (\<exists>k. sent s' = sent s @ replicate k (command lv av) @ replicate 5 stop_msg)) \<and>
   (env s = [] \<and> chan_budget s = None \<longrightarrow>
      (\<exists>s''. publish_velocity lv av (Finite d) s = Some (Returned s'') \<and>
         sent s'' = sent s @ replicate (nat \<lceil>d * 10\<rceil>) (command lv av) @ replicate 5 stop_msg \<and>
         \<lfloor>d * 10\<rfloor> \<le> int (nat \<lceil>d * 10\<rceil>)))"
proof -
  have 1: "\<exists>r. publish_velocity lv av (Finite d) s = Some r"
    by (rule publish_velocity_terminates)
  have 2: "\<exists>k. sent s' = sent s @ replicate k (command lv av) @ replicate 5 stop_msg"
    if "publish_velocity lv av dur s = Some (Returned s')"
    using that by (rule publish_velocity_returned)
  have fl: "\<lfloor>d * 10\<rfloor> \<le> int (nat \<lceil>d * 10\<rceil>)"
    using floor_le_ceiling [of "d * 10"] by linarith
  have 3: "\<exists>s''. publish_velocity lv av (Finite d) s = Some (Returned s'') \<and>
         sent s'' = sent s @ replicate (nat \<lceil>d * 10\<rceil>) (command lv av) @ replicate 5 stop_msg \<and>
         \<lfloor>d * 10\<rfloor> \<le> int (nat \<lceil>d * 10\<rceil>)"
    if "env s = []" "chan_budget s = None"
    using publish_velocity_ideal [OF that refl, where d = d and lv = lv and av = av] fl by simp
  from 1 2 3 show ?thesis by blast
qed

text \<open>The cancelled test, and a test of two seconds with exact sleeps: twenty ticks.\<close>

theorem C7_witness:
  "publish_velocity (Finite (1 / 2)) (Finite 0) (Finite 2) (init_state\<lparr>env := [(0, True)]\<rparr>) =
     Some (Returned
       (init_state\<lparr>twist_msg := command (Finite (1 / 2)) (Finite 0),
          sent := [command (Finite (1 / 2)) (Finite 0),
                   stop_msg, stop_msg, stop_msg, stop_msg, stop_msg],
          now := 3 / 5,
          reports := [3 / 5]\<rparr>)) \<and>
   (\<exists>k. [command (Finite (1 / 2)) (Finite 0), stop_msg, stop_msg, stop_msg, stop_msg, stop_msg] =
        replicate k (command (Finite (1 / 2)) (Finite 0)) @ replicate 5 stop_msg) \<and>
   env init_state = [] \<and> chan_budget init_state = None \<and>
   (\<exists>s''. publish_velocity (Finite (1 / 2)) (Finite 0) (Finite 2) init_state = Some (Returned s'') \<and>
      sent s'' = replicate 20 (command (Finite (1 / 2)) (Finite 0)) @ replicate 5 stop_msg \<and>
      \<lfloor>(2::real) * 10\<rfloor> \<le> 20)"
proof -
  have h: "env init_state = []" "chan_budget init_state = None" "sent init_state = []"
    by (simp_all add: init_state_def)
  have n: "nat \<lceil>(2::real) * 10\<rceil> = 20" by simp
  from C7_ticks_then_five_stop_commands
      [where lv = "Finite (1 / 2)" and av = "Finite 0" and dur = "Finite 2"
         and s = "init_state\<lparr>env := [(0, True)]\<rparr>"
         and s' = "init_state\<lparr>twist_msg := command (Finite (1 / 2)) (Finite 0),
          sent := [command (Finite (1 / 2)) (Finite 0),
                   stop_msg, stop_msg, stop_msg, stop_msg, stop_msg],
          now := 3 / 5,
          reports := [3 / 5]\<rparr>"]
    cancelled_example
  have a: "\<exists>k. [command (Finite (1 / 2)) (Finite 0), stop_msg, stop_msg, stop_msg, stop_msg, stop_msg] =
        replicate k (command (Finite (1 / 2)) (Finite 0)) @ replicate 5 stop_msg"
    by (simp add: init_state_def)
  from C7_ticks_then_five_stop_commands
      [where lv = "Finite (1 / 2)" and av = "Finite 0" and d = 2 and s = init_state] h(1,2)
  have b: "\<exists>s''. publish_velocity (Finite (1 / 2)) (Finite 0) (Finite 2) init_state = Some (Returned s'') \<and>
      sent s'' = sent init_state @ replicate (nat \<lceil>(2::real) * 10\<rceil>) (command (Finite (1 / 2)) (Finite 0))
        @ replicate 5 stop_msg \<and>
      \<lfloor>(2::real) * 10\<rfloor> \<le> int (nat \<lceil>(2::real) * 10\<rceil>)"
    by blast
  have b': "\<exists>s''. publish_velocity (Finite (1 / 2)) (Finite 0) (Finite 2) init_state = Some (Returned s'') \<and>
      sent s'' = replicate 20 (command (Finite (1 / 2)) (Finite 0)) @ replicate 5 stop_msg \<and>
      \<lfloor>(2::real) * 10\<rfloor> \<le> 20"
    using b unfolding n h(3) by simp
  from a b' h(1,2) cancelled_example show ?thesis by blast
qed

subsection \<open>C8: the elapsed time\<close>

text \<open>
  C8, as stated, fails. \<^verbatim>\<open>publish_velocity\<close> has no \<^verbatim>\<open>return\<close> statement; the elapsed
  time is only printed, and it is read after \<^verbatim>\<open>stop_robot\<close>. With exact sleeps a test
  of \<^verbatim>\<open>2.0\<close> seconds prints \<^verbatim>\<open>2.50\<close>, which is not within \<^verbatim>\<open>0.1\<close> of \<^verbatim>\<open>2.0\<close>.
\<close>

theorem C8_counterexample:
  "publish_velocity (Finite (1 / 2)) (Finite 0) (Finite 2) init_state =
     Some (Returned
       (init_state\<lparr>twist_msg := command (Finite (1 / 2)) (Finite 0),
          sent := replicate 20 (command (Finite (1 / 2)) (Finite 0)) @ replicate 5 stop_msg,
          now := 5 / 2,
          reports := [5 / 2]\<rparr>)) \<and>
   \<not> \<bar>5 / 2 - 2\<bar> \<le> (1 / 10 :: real)"
proof -
  have h: "env init_state = []" "chan_budget init_state = None"
    by (simp_all add: init_state_def)
  have n: "20 = nat \<lceil>(2::real) * 10\<rceil>" by simp
  from publish_velocity_ideal [OF h n, of "Finite (1 / 2)" "Finite 0"]
  show ?thesis by (simp add: init_state_def)
qed

text \<open>
  C8, amended. \<^verbatim>\<open>publish_velocity\<close> returns nothing and prints the time elapsed since
  the start of the loop, read after the stop sequence. When every sleep is exact and the
  publisher never raises, the printed value is \<open>\<lceil>duration * 10\<rceil> / 10 + 0.5\<close>: for a
  positive duration, at least \<open>duration + 0.5\<close> and less than one tick above it.
\<close>

theorem C8_elapsed_is_printed_after_the_stop_sequence:
  "env s = [] \<and> chan_budget s = None \<longrightarrow>
     (\<exists>s'. publish_velocity lv av (Finite d) s = Some (Returned s') \<and>
        reports s' = reports s @ [real (nat \<lceil>d * 10\<rceil>) / 10 + 1 / 2] \<and>
        (0 < d \<longrightarrow> d + 1 / 2 \<le> real (nat \<lceil>d * 10\<rceil>) / 10 + 1 / 2 \<and>
                   real (nat \<lceil>d * 10\<rceil>) / 10 + 1 / 2 < d + 1 / 2 + 1 / 10))"
proof
  assume a: "env s = [] \<and> chan_budget s = None"
  have 1: "publish_velocity lv av (Finite d) s =
     Some (Returned (s\<lparr>twist_msg := command lv av,
                       sent := sent s @ replicate (nat \<lceil>d * 10\<rceil>) (command lv av) @ replicate 5 stop_msg,
                       now := now s + real (nat \<lceil>d * 10\<rceil>) / 10 + 1 / 2,
                       reports := reports s @ [real (nat \<lceil>d * 10\<rceil>) / 10 + 1 / 2],
                       is_publishing := False\<rparr>))"
    using a by (intro publish_velocity_ideal) simp_all
  have 2: "d + 1 / 2 \<le> real (nat \<lceil>d * 10\<rceil>) / 10 + 1 / 2 \<and>
           real (nat \<lceil>d * 10\<rceil>) / 10 + 1 / 2 < d + 1 / 2 + 1 / 10" if "0 < d"
  proof -
    from that have "0 \<le> \<lceil>d * 10\<rceil>" by (simp add: ceiling_less_iff order_less_imp_le)
    then have r: "real (nat \<lceil>d * 10\<rceil>) = of_int \<lceil>d * 10\<rceil>" by simp
    have "d * 10 \<le> of_int \<lceil>d * 10\<rceil>" "of_int \<lceil>d * 10\<rceil> < d * 10 + 1"
      by linarith+
    then show ?thesis unfolding r by simp
  qed
  from 1 2 show "\<exists>s'. publish_velocity lv av (Finite d) s = Some (Returned s') \<and>
        reports s' = reports s @ [real (nat \<lceil>d * 10\<rceil>) / 10 + 1 / 2] \<and>
        (0 < d \<longrightarrow> d + 1 / 2 \<le> real (nat \<lceil>d * 10\<rceil>) / 10 + 1 / 2 \<and>
                   real (nat \<lceil>d * 10\<rceil>) / 10 + 1 / 2 < d + 1 / 2 + 1 / 10)"
    by simp
qed

text \<open>The test of \<^verbatim>\<open>2.0\<close> seconds: \<^verbatim>\<open>2.5\<close> is printed.\<close>

theorem C8_witness:
  "env init_state = [] \<and> chan_budget init_state = None \<and> (0::real) < 2 \<and>
   (\<exists>s'. publish_velocity (Finite (1 / 2)) (Finite 0) (Finite 2) init_state = Some (Returned s') \<and>
      reports s' = [5 / 2] \<and> (2::real) + 1 / 2 \<le> 5 / 2 \<and> (5 / 2 :: real) < 2 + 1 / 2 + 1 / 10)"
proof -
  have h: "env init_state = []" "chan_budget init_state = None" "reports init_state = []"
    by (simp_all add: init_state_def)
  have n: "real (nat \<lceil>(2::real) * 10\<rceil>) / 10 + 1 / 2 = 5 / 2" by simp
  from C8_elapsed_is_printed_after_the_stop_sequence
      [where lv = "Finite (1 / 2)" and av = "Finite 0" and d = 2 and s = init_state] h(1,2)
  have "\<exists>s'. publish_velocity (Finite (1 / 2)) (Finite 0) (Finite 2) init_state = Some (Returned s') \<and>
      reports s' = reports init_state @ [real (nat \<lceil>(2::real) * 10\<rceil>) / 10 + 1 / 2]"
    by blast
  then show ?thesis unfolding n h(3) using h(1,2) by simp
qed

subsection \<open>C9: at most one component is set\<close>

text \<open>
  C9, as stated, fails. The magnitude is not checked: with the velocity \<^verbatim>\<open>0\<close> a linear
  test publishes a tick whose components are both zero, the same message as the stop
  command.
\<close>

theorem C9_counterexample:
  "iteration Linear [Line ''0'', Line ''0.1'', Line ''n''] init_state =
     Some (Break, after_session (Finite 0) (Finite 0) init_state, []) \<and>
   sent (after_session (Finite 0) (Finite 0) init_state) =
     [command (Finite 0) (Finite 0), stop_msg, stop_msg, stop_msg, stop_msg, stop_msg] \<and>
   linear_x (command (Finite 0) (Finite 0)) = Finite 0 \<and>
   angular_z (command (Finite 0) (Finite 0)) = Finite 0"
proof -
  have e: "env init_state = []" "chan_budget init_state = None" "sent init_state = []"
    by (simp_all add: init_state_def)
  have g: "get_test_parameters [Line ''0'', Line ''0.1'', Line ''n''] =
     (Inr (Some (Finite 0, Finite (1 / 10))), [Line ''n''])"
    by (simp add: float_0 float_0_1)
  have "iteration Linear [Line ''0'', Line ''0.1'', Line ''n''] init_state =
     Some (Break, after_session (Finite 0) (Finite 0) init_state, [])"
    unfolding iteration_def get_linear_test_parameters_def g
    by (simp add: session_example [OF e(1,2)] lower_def lower_char_def strip_def is_space_def Let_def)
  then show ?thesis by (simp add: after_session_def e command_def)
qed

text \<open>
  C9, amended. On every tick of a session started from a collected pair, the component of
  the session's mode is the magnitude and the other component is zero: in linear mode
  \<^verbatim>\<open>linear.x\<close> is the magnitude and \<^verbatim>\<open>angular.z\<close> is zero, in angular mode
  \<^verbatim>\<open>angular.z\<close> is the magnitude and \<^verbatim>\<open>linear.x\<close> is zero. So exactly one of the two
  is non-zero whenever the magnitude is non-zero; when the magnitude is zero both are zero,
  as they are in the stop command.
\<close>

theorem C9_one_component_per_mode:
  assumes "f = get_linear_test_parameters \<or> f = get_angular_test_parameters"
    and "f inp = (Inr (Some (magnitude, duration)), rest)"
    and "iteration m inp s = Some (fl, s', rest')"
  shows "(m = Linear \<longrightarrow>
           (\<exists>k j. j \<le> 5 \<and>
              sent s' = sent s @ replicate k (command magnitude (Finite 0)) @ replicate j stop_msg)) \<and>
         (m = Angular \<longrightarrow>
           (\<exists>k j. j \<le> 5 \<and>
              sent s' = sent s @ replicate k (command (Finite 0) magnitude) @ replicate j stop_msg)) \<and>
         linear_x (command magnitude (Finite 0)) = magnitude \<and>
         angular_z (command magnitude (Finite 0)) = Finite 0 \<and>
         linear_x (command (Finite 0) magnitude) = Finite 0 \<and>
         angular_z (command (Finite 0) magnitude) = magnitude \<and>
         moving_components (command magnitude (Finite 0)) = (if magnitude = Finite 0 then 0 else 1) \<and>
         moving_components (command (Finite 0) magnitude) = (if magnitude = Finite 0 then 0 else 1) \<and>
         moving_components stop_msg = 0"
proof -
  from assms(1,2) have "get_test_parameters inp = (Inr (Some (magnitude, duration)), rest)"
    by (auto simp: get_linear_test_parameters_def get_angular_test_parameters_def)
  note it = iteration_session [OF this assms(3)]
  have c: "linear_x (command magnitude (Finite 0)) = magnitude"
    "angular_z (command magnitude (Finite 0)) = Finite 0"
    "linear_x (command (Finite 0) magnitude) = Finite 0"
    "angular_z (command (Finite 0) magnitude) = magnitude"
    "moving_components (command magnitude (Finite 0)) = (if magnitude = Finite 0 then 0 else 1)"
    "moving_components (command (Finite 0) magnitude) = (if magnitude = Finite 0 then 0 else 1)"
    "moving_components stop_msg = 0"
    by (simp_all add: command_def moving_components_def stop_msg_def Twist_def)
  from it c show ?thesis by simp
qed

text \<open>The velocity \<^verbatim>\<open>1\<close> for \<^verbatim>\<open>0.1\<close> seconds in both modes: one component each.\<close>

theorem C9_witness:
  "get_linear_test_parameters [Line ''1'', Line ''0.1'', Line ''n''] =
     (Inr (Some (Finite 1, Finite (1 / 10))), [Line ''n'']) \<and>
   iteration Linear [Line ''1'', Line ''0.1'', Line ''n''] init_state =
     Some (Break, after_session (Finite 1) (Finite 0) init_state, []) \<and>
   iteration Angular [Line ''1'', Line ''0.1'', Line ''n''] init_state =
     Some (Break, after_session (Finite 0) (Finite 1) init_state, []) \<and>
   (\<exists>k j. j \<le> 5 \<and>
      sent (after_session (Finite 1) (Finite 0) init_state) = sent init_state
        @ replicate k (command (Finite 1) (Finite 0)) @ replicate j stop_msg) \<and>
   (\<exists>k j. j \<le> 5 \<and>
      sent (after_session (Finite 0) (Finite 1) init_state) = sent init_state
        @ replicate k (command (Finite 0) (Finite 1)) @ replicate j stop_msg) \<and>
   moving_components (command (Finite 1) (Finite 0)) = 1 \<and>
   moving_components (command (Finite 0) (Finite 1)) = 1 \<and>
   moving_components stop_msg = 0"
proof -
  have e: "env init_state = []" "chan_budget init_state = None"
    by (simp_all add: init_state_def)
  have g: "get_linear_test_parameters [Line ''1'', Line ''0.1'', Line ''n''] =
     (Inr (Some (Finite 1, Finite (1 / 10))), [Line ''n''])"
    unfolding get_linear_test_parameters_def by (rule gtp_example)
  note l = iteration_linear_example [OF e]
  note a = iteration_angular_example [OF e]
  from C9_one_component_per_mode [OF disjI1 [OF refl] g l]
  have 1: "(\<exists>k j. j \<le> 5 \<and>
      sent (after_session (Finite 1) (Finite 0) init_state) = sent init_state
        @ replicate k (command (Finite 1) (Finite 0)) @ replicate j stop_msg) \<and>
     moving_components (command (Finite 1) (Finite 0)) = 1 \<and>
     moving_components (command (Finite 0) (Finite 1)) = 1 \<and>
     moving_components stop_msg = 0"
    by simp
  from C9_one_component_per_mode [OF disjI1 [OF refl] g a]
  have 2: "\<exists>k j. j \<le> 5 \<and>
      sent (after_session (Finite 0) (Finite 1) init_state) = sent init_state
        @ replicate k (command (Finite 0) (Finite 1)) @ replicate j stop_msg"
    by simp
  from g l a 1 2 show ?thesis by blast
qed

subsection \<open>C10: only \<^verbatim>\<open>linear.x\<close> and \<^verbatim>\<open>angular.z\<close> are ever set\<close>

text \<open>
  C10. If every message in the log has \<^verbatim>\<open>linear.y\<close>, \<^verbatim>\<open>linear.z\<close>, \<^verbatim>\<open>angular.x\<close>
  and \<^verbatim>\<open>angular.y\<close> equal to \<^verbatim>\<open>0.0\<close>, so has every message in the log after
  \<^verbatim>\<open>stop_robot\<close>, after \<^verbatim>\<open>publish_velocity\<close>, after a whole run of
  \<^verbatim>\<open>user_interface\<close> and after the \<^verbatim>\<open>finally\<close> clause of \<^verbatim>\<open>main\<close>, however each
  ends (returning or raising). The log is empty when the node is created.
\<close>

theorem C10_only_linear_x_and_angular_z:
  assumes "planar_log s"
  shows "planar_log (final (stop_robot s)) \<and>
         (publish_velocity lv av d s = Some r \<longrightarrow> planar_log (final r)) \<and>
         (user_interface inp s = Some (ui, rest) \<longrightarrow> planar_log (final ui)) \<and>
         planar_log (final (main_finally node_exists pending s))"
  using assms planar_stop_robot planar_publish_velocity planar_user_interface planar_main_finally
  by blast

theorem C10_witness:
  "planar_log init_state \<and>
   user_interface [Line ''1'', Line ''1'', Line ''0.1'', Line ''n''] init_state =
     Some (Returned
       (shutdown (after_session (Finite 1) (Finite 0) (init_state\<lparr>test_mode := Some Linear\<rparr>))), []) \<and>
   planar_log (shutdown (after_session (Finite 1) (Finite 0) (init_state\<lparr>test_mode := Some Linear\<rparr>))) \<and>
   publish_velocity (Finite 0) (Finite 1) (Finite (1 / 10)) init_state =
     Some (Returned (after_session (Finite 0) (Finite 1) init_state)) \<and>
   planar_log (after_session (Finite 0) (Finite 1) init_state)"
proof -
  have h: "planar_log init_state" by (simp add: planar_log_def init_state_def)
  have pv: "publish_velocity (Finite 0) (Finite 1) (Finite (1 / 10)) init_state =
     Some (Returned (after_session (Finite 0) (Finite 1) init_state))"
    by (rule session_example) (simp_all add: init_state_def)
  from C10_only_linear_x_and_angular_z [OF h, of "Finite 0" "Finite 1" "Finite (1 / 10)"
      "Returned (after_session (Finite 0) (Finite 1) init_state)"
      "[Line ''1'', Line ''1'', Line ''0.1'', Line ''n'']"
      "Returned (shutdown (after_session (Finite 1) (Finite 0) (init_state\<lparr>test_mode := Some Linear\<rparr>)))"
      "[]"]
    h pv user_interface_example
  show ?thesis by simp
qed

end
